theory Spec2Isabelle
  imports Main "HOL-Library.Multiset"
begin

section \<open>Numbers\<close>

text \<open>
  Timestamps are JavaScript numbers. The program uses them as integer milliseconds, adds
  the two sentinels \<^verbatim>\<open>Infinity\<close> and \<^verbatim>\<open>-Infinity\<close>, and receives \<^verbatim>\<open>NaN\<close> from the date
  conversion of a malformed string or of a number beyond the range of dates. The type
  \<open>num\<close> holds these values.

  The order \<open>\<le>\<close> on \<open>num\<close> is the numeric order with \<open>NaN\<close> placed above \<open>+\<infinity>\<close>. It serves to
  state theorems (minimum, maximum, sortedness) and is never what the program computes:
  the comparisons of the program are \<open>js_le\<close> (\<^verbatim>\<open><=\<close>, \<^verbatim>\<open>>=\<close>), \<open>js_lt\<close> (\<^verbatim>\<open><\<close>, \<^verbatim>\<open>>\<close>) and
  \<open>js_eq\<close> (\<^verbatim>\<open>===\<close>), which are false whenever an operand is \<open>NaN\<close>. On numbers other than
  \<open>NaN\<close> they agree with \<open>\<le>\<close>, \<open><\<close> and \<open>=\<close>.
\<close>

datatype num = NegInf | Fin int | PosInf | NaN

instantiation num :: linorder
begin

fun less_eq_num :: "num \<Rightarrow> num \<Rightarrow> bool" where
  "less_eq_num x NaN = True"
| "less_eq_num NaN y = False"
| "less_eq_num NegInf y = True"
| "less_eq_num (Fin a) NegInf = False"
| "less_eq_num (Fin a) (Fin b) = (a \<le> b)"
| "less_eq_num (Fin a) PosInf = True"
| "less_eq_num PosInf PosInf = True"
| "less_eq_num PosInf y = False"

definition less_num :: "num \<Rightarrow> num \<Rightarrow> bool" where
  "less_num x y = (x \<le> y \<and> \<not> y \<le> x)"

instance
proof
  fix x y z :: num
  show "(x < y) = (x \<le> y \<and> \<not> y \<le> x)"
    by (simp add: less_num_def)
  show "x \<le> x"
    by (cases x) simp_all
  show "x \<le> y \<Longrightarrow> y \<le> z \<Longrightarrow> x \<le> z"
    by (cases x; cases y; cases z) simp_all
  show "x \<le> y \<Longrightarrow> y \<le> x \<Longrightarrow> x = y"
    by (cases x; cases y) simp_all
  show "x \<le> y \<or> y \<le> x"
    by (cases x; cases y) auto
qed

end

definition js_le :: "num \<Rightarrow> num \<Rightarrow> bool" where
  "js_le a b = (a \<noteq> NaN \<and> b \<noteq> NaN \<and> a \<le> b)"

definition js_lt :: "num \<Rightarrow> num \<Rightarrow> bool" where
  "js_lt a b = (a \<noteq> NaN \<and> b \<noteq> NaN \<and> a < b)"

definition js_eq :: "num \<Rightarrow> num \<Rightarrow> bool" where
  "js_eq a b = (a \<noteq> NaN \<and> b \<noteq> NaN \<and> a = b)"

text \<open>\<^verbatim>\<open>Math.min\<close> and \<^verbatim>\<open>Math.max\<close> return \<^verbatim>\<open>NaN\<close> when an argument is \<^verbatim>\<open>NaN\<close>.\<close>

definition js_min :: "num \<Rightarrow> num \<Rightarrow> num" where
  "js_min a b = (if a = NaN \<or> b = NaN then NaN else min a b)"

definition js_max :: "num \<Rightarrow> num \<Rightarrow> num" where
  "js_max a b = (if a = NaN \<or> b = NaN then NaN else max a b)"

text \<open>
  \<^verbatim>\<open>Array.prototype.sort\<close> with the comparator \<^verbatim>\<open>(a, b) => a - b\<close>. An element moves past
  another one when the comparator is positive, that is when it is greater by \<open>js_lt\<close>; a
  \<^verbatim>\<open>NaN\<close> difference counts as \<open>0\<close>. On an array without \<^verbatim>\<open>NaN\<close> the comparator is an order
  and every implementation returns the sorted array. On an array with \<^verbatim>\<open>NaN\<close> the result is
  a permutation that the language leaves to the implementation: the model is the stable
  insertion sort, and the general theorems use of it only that it permutes the array.
\<close>

fun js_insert :: "num \<Rightarrow> num list \<Rightarrow> num list" where
  "js_insert x [] = [x]"
| "js_insert x (y # ys) = (if js_lt y x then y # js_insert x ys else x # y # ys)"

definition js_sort :: "num list \<Rightarrow> num list" where
  "js_sort xs = foldr js_insert xs []"

text \<open>
  Truthiness of a number (\<^verbatim>\<open>a || b\<close>): \<^verbatim>\<open>0\<close> and \<^verbatim>\<open>NaN\<close> are falsy, every other member of
  \<open>num\<close> is truthy. An absent option (\<^verbatim>\<open>undefined\<close>) is falsy.
\<close>

definition truthy :: "num \<Rightarrow> bool" where
  "truthy x = (x \<noteq> Fin 0 \<and> x \<noteq> NaN)"

definition or_else :: "num option \<Rightarrow> num \<Rightarrow> num" where
  "or_else a b = (case a of None \<Rightarrow> b | Some x \<Rightarrow> if truthy x then x else b)"

section \<open>Features and the interval tree\<close>

text \<open>
  A feature is a JavaScript object, compared by reference (\<^verbatim>\<open>===\<close>). The field \<open>ref\<close> is
  the object's identity, so that two features with equal contents are still two
  features; equality of the record is the model of \<^verbatim>\<open>===\<close>. Of the contents only the
  \<^verbatim>\<open>start\<close> and \<^verbatim>\<open>end\<close> properties are read by the program: \<open>properties = None\<close> is a
  feature without properties, \<open>p_start = None\<close> one whose properties lack the key.
\<close>

datatype timearg = TNum num | TStr string

record props =
  p_start :: "timearg option"
  p_end :: "timearg option"

record feature =
  ref :: nat
  properties :: "props option"

record TimeBounds =
  b_start :: num
  b_end :: num

text \<open>
  Modelled from the spec: the interval tree is the class \<^verbatim>\<open>IntervalTree\<close> of the package
  \<^verbatim>\<open>diesal\<close>, which is not part of the sources. The spec describes it as a collection of
  entries \<open>(start, end, feature)\<close>, where duplicates are separate entries, with an
  \<^verbatim>\<open>overlap(queryStart, queryEnd)\<close> query returning the feature of every entry whose closed
  interval intersects the closed query interval, that is \<^verbatim>\<open>s <= qe && e >= qs\<close>. The
  entries are kept in insertion order.
\<close>

type_synonym IntervalTree = "(num \<times> num \<times> feature) list"

definition insert_entry :: "num \<Rightarrow> num \<Rightarrow> feature \<Rightarrow> IntervalTree \<Rightarrow> IntervalTree" where
  "insert_entry s e f tree = tree @ [(s, e, f)]"

definition intersects :: "num \<Rightarrow> num \<Rightarrow> num \<times> num \<times> feature \<Rightarrow> bool" where
  "intersects qs qe entry = (case entry of (s, e, f) \<Rightarrow> js_le s qe \<and> js_le qs e)"

definition overlap :: "IntervalTree \<Rightarrow> num \<Rightarrow> num \<Rightarrow> feature list" where
  "overlap tree qs qe = map (\<lambda>entry. snd (snd entry)) (filter (intersects qs qe) tree)"

section \<open>The timeline layer\<close>

text \<open>
  Modelled from the spec: \<^verbatim>\<open>L.Timeline\<close> extends Leaflet's \<^verbatim>\<open>L.GeoJSON\<close>, which is not
  part of the sources. The spec describes it as a map view that accepts the commands
  "draw this feature" and "remove this feature". A displayed layer is an object of its
  own (\<open>lid\<close> is Leaflet's stamp) bound to one feature. \<^verbatim>\<open>getLayers\<close> lists the displayed
  layers, \<^verbatim>\<open>removeLayer\<close> removes the layer with the given stamp, \<^verbatim>\<open>addData\<close> appends a
  layer with a fresh stamp bound to the feature, and \<^verbatim>\<open>fire\<close> notifies the listeners.
  Every command sent to the view is also appended to \<open>t_log\<close>.
\<close>

record layer =
  lid :: nat
  l_feature :: feature

datatype view_op = RemoveLayer nat | AddData feature | Fire string

record TimelineOptions =
  drawOnSetTime :: "bool option"
  o_getInterval :: "(feature \<Rightarrow> TimeBounds option) option"
  o_start :: "num option"
  o_end :: "num option"

record Timeline =
  t_start :: num
  t_end :: num
  t_timeStart :: num
  t_timeEnd :: num
  t_times :: "num list"
  t_ranges :: IntervalTree
  t_options :: TimelineOptions
  t_getInterval :: "feature \<Rightarrow> TimeBounds option"
  t_layers :: "layer list"
  t_log :: "view_op list"

definition getLayers :: "Timeline \<Rightarrow> layer list" where
  "getLayers tm = t_layers tm"

definition removeLayer :: "layer \<Rightarrow> Timeline \<Rightarrow> Timeline" where
  "removeLayer l tm =
     tm\<lparr>t_layers := filter (\<lambda>x. lid x \<noteq> lid l) (t_layers tm),
        t_log := t_log tm @ [RemoveLayer (lid l)]\<rparr>"

definition stamp :: "layer list \<Rightarrow> nat" where
  "stamp ls = Suc (fold max (map lid ls) 0)"

definition addData :: "feature \<Rightarrow> Timeline \<Rightarrow> Timeline" where
  "addData f tm =
     tm\<lparr>t_layers := t_layers tm @ [\<lparr>lid = stamp (t_layers tm), l_feature = f\<rparr>],
        t_log := t_log tm @ [AddData f]\<rparr>"

definition fire :: "string \<Rightarrow> Timeline \<Rightarrow> Timeline" where
  "fire ev tm = tm\<lparr>t_log := t_log tm @ [Fire ev]\<rparr>"

subsection \<open>Interval extraction\<close>

text \<open>
  \<^verbatim>\<open>new Date(v).getTime()\<close> is the host's date conversion; it is the parameter \<open>D\<close> of
  every function that reaches it, and it may return \<open>NaN\<close>. \<open>None\<close> is the result \<^verbatim>\<open>false\<close>
  of \<^verbatim>\<open>_getInterval\<close>; an interval with a \<open>NaN\<close> bound is an object and is indexed.
\<close>

definition getInterval_default :: "(timearg \<Rightarrow> num) \<Rightarrow> feature \<Rightarrow> TimeBounds option" where
  "getInterval_default D f =
     (case properties f of
        None \<Rightarrow> None
      | Some p \<Rightarrow>
          (case (p_start p, p_end p) of
             (Some s, Some e) \<Rightarrow> Some \<lparr>b_start = D s, b_end = D e\<rparr>
           | _ \<Rightarrow> None))"

subsection \<open>Construction\<close>

text \<open>
  One round of the \<^verbatim>\<open>forEach\<close> of \<^verbatim>\<open>_process\<close>; the pair is the running
  \<^verbatim>\<open>(start, end)\<close> of the closure.
\<close>

definition process_feature :: "feature \<Rightarrow> Timeline \<times> num \<times> num \<Rightarrow> Timeline \<times> num \<times> num" where
  "process_feature f st =
     (case st of (tm, start, end) \<Rightarrow>
        (case t_getInterval tm f of
           None \<Rightarrow> (tm, start, end)
         | Some interval \<Rightarrow>
             (tm\<lparr>t_ranges := insert_entry (b_start interval) (b_end interval) f (t_ranges tm),
                 t_times := t_times tm @ [b_start interval, b_end interval]\<rparr>,
              js_min start (b_start interval),
              js_max end (b_end interval))))"

text \<open>
  The callback of the de-duplicating \<^verbatim>\<open>reduce\<close>: the element \<open>x\<close> at index \<open>i\<close> is
  appended when \<^verbatim>\<open>lastTime !== x\<close>, where \<open>lastTime\<close> is the last element of the list built
  so far (\<^verbatim>\<open>undefined\<close>, which differs from every number, on an empty list).
\<close>

definition last_opt :: "'a list \<Rightarrow> 'a option" where
  "last_opt xs = (if xs = [] then None else Some (last xs))"

definition dedupe_step :: "num list \<Rightarrow> num \<times> nat \<Rightarrow> num list" where
  "dedupe_step newList xi =
     (case xi of (x, i) \<Rightarrow>
        if i = 0 then newList
        else if (case last_opt newList of
                   None \<Rightarrow> True
                 | Some lastTime \<Rightarrow> \<not> js_eq lastTime x)
             then newList @ [x]
        else newList)"

definition dedupe_times :: "num list \<Rightarrow> num list" where
  "dedupe_times ts =
     (case ts of
        [] \<Rightarrow> []
      | t0 # rest \<Rightarrow> foldl dedupe_step [t0] (zip ts [0 ..< length ts]))"

definition process :: "feature list \<Rightarrow> Timeline \<Rightarrow> Timeline" where
  "process features tm =
     (case fold process_feature features (tm, PosInf, NegInf) of
        (tm1, start, end) \<Rightarrow>
          (let tm2 = tm1\<lparr>t_start := or_else (o_start (t_options tm1)) start\<rparr>;
               tm3 = tm2\<lparr>t_end := or_else (o_end (t_options tm2)) end\<rparr>;
               tm4 = tm3\<lparr>t_timeStart := t_start tm3\<rparr>;
               tm5 = tm4\<lparr>t_timeEnd := t_end tm4\<rparr>
           in if length (t_times tm5) = 0 then tm5
              else tm5\<lparr>t_times := dedupe_times (js_sort (t_times tm5))\<rparr>))"

text \<open>
  \<^verbatim>\<open>initialize\<close>: the declared type of \<open>geojson\<close> is a feature collection, an object, so
  the guard \<^verbatim>\<open>if (geojson)\<close> holds and \<^verbatim>\<open>_process\<close> runs. The layer group starts
  empty (\<^verbatim>\<open>L.GeoJSON\<close> is initialized with \<^verbatim>\<open>null\<close>). The fields that \<^verbatim>\<open>_process\<close>
  assigns before anything reads them start at \<open>Fin 0\<close>. \<open>setOptions\<close> merges the given
  options over the default \<^verbatim>\<open>drawOnSetTime: true\<close>.
\<close>

definition setOptions :: "TimelineOptions \<Rightarrow> TimelineOptions" where
  "setOptions options =
     options\<lparr>drawOnSetTime :=
       Some (case drawOnSetTime options of None \<Rightarrow> True | Some b \<Rightarrow> b)\<rparr>"

definition resolve_getInterval ::
  "(timearg \<Rightarrow> num) \<Rightarrow> TimelineOptions \<Rightarrow> feature \<Rightarrow> TimeBounds option" where
  "resolve_getInterval D options =
     (case o_getInterval options of
        Some g \<Rightarrow> g
      | None \<Rightarrow> getInterval_default D)"

definition initialize :: "(timearg \<Rightarrow> num) \<Rightarrow> feature list \<Rightarrow> TimelineOptions \<Rightarrow> Timeline" where
  "initialize D geojson options =
     process geojson
       \<lparr>t_start = Fin 0, t_end = Fin 0, t_timeStart = Fin 0, t_timeEnd = Fin 0,
        t_times = [], t_ranges = [],
        t_options = setOptions options,
        t_getInterval = resolve_getInterval D options,
        t_layers = [], t_log = []\<rparr>"

subsection \<open>Selection and redisplay\<close>

text \<open>
  The inner \<^verbatim>\<open>for\<close> loop of \<^verbatim>\<open>updateDisplayedLayers\<close>: the first feature identical to
  the layer's feature is spliced out of the working list; \<open>None\<close> when there is none
  (\<^verbatim>\<open>found\<close> stays \<^verbatim>\<open>false\<close>).
\<close>

fun find_splice :: "feature \<Rightarrow> feature list \<Rightarrow> feature list option" where
  "find_splice lf [] = None"
| "find_splice lf (f # fs) =
     (if lf = f then Some fs else map_option ((#) f) (find_splice lf fs))"

text \<open>The \<^verbatim>\<open>forEach\<close> over the displayed layers, threading the working list and
  \<^verbatim>\<open>layersToRemove\<close>.\<close>

fun match_layers :: "layer list \<Rightarrow> feature list \<Rightarrow> layer list \<Rightarrow> feature list \<times> layer list" where
  "match_layers [] features layersToRemove = (features, layersToRemove)"
| "match_layers (layer # layers) features layersToRemove =
     (case find_splice (l_feature layer) features of
        Some features' \<Rightarrow> match_layers layers features' layersToRemove
      | None \<Rightarrow> match_layers layers features (layersToRemove @ [layer]))"

definition updateDisplayedLayers :: "Timeline \<Rightarrow> Timeline" where
  "updateDisplayedLayers tm =
     (let features = overlap (t_ranges tm) (t_timeStart tm) (t_timeEnd tm);
          layers = getLayers tm
      in case match_layers layers features [] of
           (features', layersToRemove) \<Rightarrow>
             fold addData features' (fold removeLayer layersToRemove tm))"

definition to_time :: "(timearg \<Rightarrow> num) \<Rightarrow> timearg \<Rightarrow> num" where
  "to_time D time = (case time of TNum n \<Rightarrow> n | TStr s \<Rightarrow> D time)"

definition setStartTime :: "(timearg \<Rightarrow> num) \<Rightarrow> timearg \<Rightarrow> Timeline \<Rightarrow> Timeline" where
  "setStartTime D time tm =
     (let tm1 = tm\<lparr>t_timeStart := to_time D time\<rparr>;
          tm2 = (if drawOnSetTime (t_options tm1) = Some True
                 then updateDisplayedLayers tm1 else tm1)
      in fire ''change'' tm2)"

definition setEndTime :: "(timearg \<Rightarrow> num) \<Rightarrow> timearg \<Rightarrow> Timeline \<Rightarrow> Timeline" where
  "setEndTime D time tm =
     (let tm1 = tm\<lparr>t_timeEnd := to_time D time\<rparr>;
          tm2 = (if drawOnSetTime (t_options tm1) = Some True
                 then updateDisplayedLayers tm1 else tm1)
      in fire ''change'' tm2)"

section \<open>The slider control\<close>

text \<open>
  Modelled from the spec: the range slider is the widget of the package
  \<^verbatim>\<open>nouislider\<close>, which is not part of the sources; the spec names it an external
  control with drag handles and tick marks. The model keeps what the control last wrote
  to the widget: the range given to \<^verbatim>\<open>create\<close> or \<^verbatim>\<open>updateOptions\<close>, the handle
  positions given to \<^verbatim>\<open>create\<close> or \<^verbatim>\<open>set\<close> (\<open>None\<close> is \<^verbatim>\<open>null\<close>: leave the handle), and the
  tick values. The widget accepts every call; the events it fires back are user input
  and reach the control as calls of \<open>sliderChanged\<close>.
\<close>

record Slider =
  range_min :: num
  range_max :: num
  handle_lo :: num
  handle_hi :: num
  pips :: "num list option"

definition create :: "num \<Rightarrow> num \<Rightarrow> num \<Rightarrow> num \<Rightarrow> Slider" where
  "create lo hi rmin rmax =
     \<lparr>range_min = rmin, range_max = rmax, handle_lo = lo, handle_hi = hi, pips = None\<rparr>"

definition updateOptions_range :: "num \<Rightarrow> num \<Rightarrow> Slider \<Rightarrow> Slider" where
  "updateOptions_range rmin rmax s = s\<lparr>range_min := rmin, range_max := rmax\<rparr>"

definition updateOptions_pips :: "num list \<Rightarrow> Slider \<Rightarrow> Slider" where
  "updateOptions_pips values s = s\<lparr>pips := Some values\<rparr>"

definition slider_set :: "num option \<Rightarrow> num option \<Rightarrow> Slider \<Rightarrow> Slider" where
  "slider_set lo hi s =
     s\<lparr>handle_lo := (case lo of None \<Rightarrow> handle_lo s | Some v \<Rightarrow> v),
       handle_hi := (case hi of None \<Rightarrow> handle_hi s | Some v \<Rightarrow> v)\<rparr>"

text \<open>
  The control. Its timelines are references to timeline objects, which the control
  mutates through their methods: \<open>c_timelines\<close> holds the references and the heap maps
  a reference to the object's state. \<open>c_timeStart\<close> and \<open>c_timeEnd\<close> are \<open>None\<close> until
  the first \<open>sliderChanged\<close> assigns them, and \<open>c_timeSlider\<close> is \<open>None\<close> until \<open>onAdd\<close>
  has built the widget. The options \<^verbatim>\<open>formatOutput\<close> and \<^verbatim>\<open>position\<close> only reach the
  output element, which this program never creates, and Leaflet's placement.
\<close>

datatype js_error = TypeError

type_synonym heap = "nat \<Rightarrow> Timeline"

record ControlOptions =
  showTicks :: "bool option"
  waitToUpdateMap :: "bool option"
  oc_start :: "num option"
  oc_end :: "num option"

record Control =
  c_options :: ControlOptions
  c_timelines :: "nat list"
  c_start :: num
  c_end :: num
  c_timeStart :: "num option"
  c_timeEnd :: "num option"
  c_timeSlider :: "Slider option"

record SliderEvent =
  e_type :: string
  valueMin :: num
  valueMax :: num

definition control_setOptions :: "ControlOptions \<Rightarrow> ControlOptions" where
  "control_setOptions options =
     options\<lparr>showTicks := Some (case showTicks options of None \<Rightarrow> True | Some b \<Rightarrow> b),
             waitToUpdateMap :=
               Some (case waitToUpdateMap options of None \<Rightarrow> False | Some b \<Rightarrow> b)\<rparr>"

definition control_initialize :: "ControlOptions \<Rightarrow> Control" where
  "control_initialize options =
     \<lparr>c_options = control_setOptions options,
      c_timelines = [],
      c_start = or_else (oc_start options) (Fin 0),
      c_end = or_else (oc_end options) (Fin 0),
      c_timeStart = None, c_timeEnd = None, c_timeSlider = None\<rparr>"

subsection \<open>The merged time list\<close>

text \<open>The \<^verbatim>\<open>reduce\<close> of \<^verbatim>\<open>_getTimes\<close>: \<open>a\<close> is the previous element, \<open>b\<close> the current one.\<close>

fun reduce_dedupe :: "num \<Rightarrow> num list \<Rightarrow> num list \<Rightarrow> num list" where
  "reduce_dedupe a [] dedupedTimes = dedupedTimes"
| "reduce_dedupe a (b # bs) dedupedTimes =
     reduce_dedupe b bs (if \<not> js_eq a b then dedupedTimes @ [b] else dedupedTimes)"

definition getTimes :: "heap \<Rightarrow> Control \<Rightarrow> num list" where
  "getTimes h c =
     (let times = fold (\<lambda>timeline times.
                     times @ filter (\<lambda>time. js_le (c_start c) time \<and> js_le time (c_end c))
                               (t_times (h timeline)))
                   (c_timelines c) []
      in if length times \<noteq> 0
         then (case js_sort times of
                 [] \<Rightarrow> []
               | t0 # rest \<Rightarrow> reduce_dedupe t0 rest [t0])
         else times)"

subsection \<open>Bounds\<close>

definition minmax_step :: "heap \<Rightarrow> nat \<Rightarrow> num \<times> num \<Rightarrow> num \<times> num" where
  "minmax_step h timeline mm =
     (case mm of (mn, mx) \<Rightarrow>
        (if js_lt (t_start (h timeline)) mn then t_start (h timeline) else mn,
         if js_lt mx (t_end (h timeline)) then t_end (h timeline) else mx))"

text \<open>
  \<^verbatim>\<open>_recalculate\<close> reads \<^verbatim>\<open>this._timeSlider\<close> without a guard: before \<open>onAdd\<close> the access
  raises a \<^verbatim>\<open>TypeError\<close>.
\<close>

definition recalculate_start :: "num \<Rightarrow> Control \<Rightarrow> js_error + Control" where
  "recalculate_start mn c =
     (if oc_start (c_options c) = None
      then (case c_timeSlider c of
              None \<Rightarrow> Inl TypeError
            | Some s \<Rightarrow>
                Inr (c\<lparr>c_start := mn,
                       c_timeSlider :=
                         Some (slider_set (Some mn) None
                                 (updateOptions_range (if mn = PosInf then Fin 0 else mn)
                                    (range_max s) s))\<rparr>))
      else Inr c)"

definition recalculate_end :: "num \<Rightarrow> Control \<Rightarrow> js_error + Control" where
  "recalculate_end mx c =
     (if oc_end (c_options c) = None
      then (case c_timeSlider c of
              None \<Rightarrow> Inl TypeError
            | Some s \<Rightarrow>
                Inr (c\<lparr>c_end := mx,
                       c_timeSlider :=
                         Some (updateOptions_range (range_min s)
                                 (if mx = NegInf then Fin 0 else mx) s)\<rparr>))
      else Inr c)"

definition recalculate :: "heap \<Rightarrow> Control \<Rightarrow> js_error + Control" where
  "recalculate h c =
     (case fold (minmax_step h) (c_timelines c) (PosInf, NegInf) of
        (mn, mx) \<Rightarrow>
          (case recalculate_start mn c of
             Inl err \<Rightarrow> Inl err
           | Inr c1 \<Rightarrow> recalculate_end mx c1))"

subsection \<open>Nearest event\<close>

text \<open>
  The loop of \<^verbatim>\<open>_nearestEventTime\<close> from index 1 on: \<open>lastTime\<close> starts as \<^verbatim>\<open>times[0]\<close>,
  which the loop never compares with \<open>findTime\<close>. The result \<open>None\<close> is \<^verbatim>\<open>undefined\<close>, the
  value of \<^verbatim>\<open>times[0]\<close> on an empty list. An absent \<open>mode\<close> defaults to 1.
\<close>

fun nearest_loop :: "num \<Rightarrow> int \<Rightarrow> bool \<Rightarrow> num \<Rightarrow> num list \<Rightarrow> num" where
  "nearest_loop findTime mode retNext lastTime [] = lastTime"
| "nearest_loop findTime mode retNext lastTime (time # rest) =
     (if retNext then time
      else if js_le findTime time then
        (if mode = - 1 then lastTime
         else if js_eq time findTime then nearest_loop findTime mode True time rest
         else time)
      else nearest_loop findTime mode retNext time rest)"

definition nearestEventTime :: "heap \<Rightarrow> Control \<Rightarrow> num \<Rightarrow> int option \<Rightarrow> num option" where
  "nearestEventTime h c findTime mode =
     (case getTimes h c of
        [] \<Rightarrow> None
      | t0 # rest \<Rightarrow>
          Some (nearest_loop findTime (case mode of None \<Rightarrow> 1 | Some m \<Rightarrow> m) False t0 rest))"

subsection \<open>The widget and the selection\<close>

definition makeSlider :: "Control \<Rightarrow> Control" where
  "makeSlider c =
     c\<lparr>c_timeSlider :=
         Some (create (or_else (Some (c_start c)) (Fin 0)) (or_else (Some (c_end c)) (Fin 0))
                 (or_else (Some (c_start c)) (Fin 0)) (or_else (Some (c_end c)) (Fin 0)))\<rparr>"

definition rebuildDataList :: "heap \<Rightarrow> Control \<Rightarrow> js_error + Control" where
  "rebuildDataList h c =
     (case c_timeSlider c of
        None \<Rightarrow> Inl TypeError
      | Some s \<Rightarrow> Inr (c\<lparr>c_timeSlider := Some (updateOptions_pips (getTimes h c) s)\<rparr>))"

definition buildDataList :: "heap \<Rightarrow> Control \<Rightarrow> js_error + Control" where
  "buildDataList h c = rebuildDataList h c"

definition createDOM :: "heap \<Rightarrow> Control \<Rightarrow> js_error + Control" where
  "createDOM h c =
     (let c1 = makeSlider c
      in if showTicks (c_options c1) = Some True then buildDataList h c1 else Inr c1)"

definition sliderChanged :: "(timearg \<Rightarrow> num) \<Rightarrow> SliderEvent \<Rightarrow> Control \<times> heap \<Rightarrow> Control \<times> heap" where
  "sliderChanged D e w =
     (case w of (c, h) \<Rightarrow>
        (let c1 = c\<lparr>c_timeStart := Some (valueMin e)\<rparr>;
             c2 = c1\<lparr>c_timeEnd := Some (valueMax e)\<rparr>
         in if waitToUpdateMap (c_options c2) \<noteq> Some True \<or> e_type e = ''change''
            then (let h1 = fold (\<lambda>timeline h'.
                              h'(timeline := setStartTime D (TNum (valueMin e)) (h' timeline)))
                            (c_timelines c2) h;
                      h2 = fold (\<lambda>timeline h'.
                              h'(timeline := setEndTime D (TNum (valueMax e)) (h' timeline)))
                            (c_timelines c2) h1
                  in (c2, h2))
            else (c2, h)))"

definition setTime :: "(timearg \<Rightarrow> num) \<Rightarrow> num \<Rightarrow> num \<Rightarrow> Control \<times> heap \<Rightarrow> Control \<times> heap" where
  "setTime D timeStart timeEnd w =
     (case w of (c, h) \<Rightarrow>
        (let c1 = (case c_timeSlider c of
                     None \<Rightarrow> c
                   | Some s \<Rightarrow>
                       c\<lparr>c_timeSlider := Some (slider_set (Some timeStart) (Some timeEnd) s)\<rparr>)
         in sliderChanged D \<lparr>e_type = ''change'', valueMin = timeStart, valueMax = timeEnd\<rparr>
              (c1, h)))"

definition onAdd :: "(timearg \<Rightarrow> num) \<Rightarrow> Control \<times> heap \<Rightarrow> js_error + Control \<times> heap" where
  "onAdd D w =
     (case w of (c, h) \<Rightarrow>
        (case createDOM h c of
           Inl err \<Rightarrow> Inl err
         | Inr c1 \<Rightarrow> Inr (setTime D (c_start c1) (c_end c1) (c1, h))))"

subsection \<open>Registration\<close>

definition resetIfTimelinesChanged ::
  "(timearg \<Rightarrow> num) \<Rightarrow> nat \<Rightarrow> Control \<times> heap \<Rightarrow> js_error + Control \<times> heap" where
  "resetIfTimelinesChanged D oldTimelineCount w =
     (case w of (c, h) \<Rightarrow>
        if length (c_timelines c) \<noteq> oldTimelineCount
        then (case recalculate h c of
                Inl err \<Rightarrow> Inl err
              | Inr c1 \<Rightarrow>
                  (case (if showTicks (c_options c1) = Some True
                         then rebuildDataList h c1 else Inr c1) of
                     Inl err \<Rightarrow> Inl err
                   | Inr c2 \<Rightarrow> Inr (setTime D (c_start c2) (c_end c2) (c2, h))))
        else Inr (c, h))"

text \<open>The \<^verbatim>\<open>forEach\<close> loops of \<^verbatim>\<open>addTimelines\<close> and \<^verbatim>\<open>removeTimelines\<close>:
  \<^verbatim>\<open>indexOf\<close> compares references.\<close>

definition push_new :: "nat list \<Rightarrow> Control \<Rightarrow> Control" where
  "push_new timelines c =
     fold (\<lambda>timeline c'.
             if timeline \<notin> set (c_timelines c')
             then c'\<lparr>c_timelines := c_timelines c' @ [timeline]\<rparr>
             else c')
       timelines c"

definition splice_found :: "nat list \<Rightarrow> Control \<Rightarrow> Control" where
  "splice_found timelines c =
     fold (\<lambda>timeline c'.
             if timeline \<in> set (c_timelines c')
             then c'\<lparr>c_timelines := remove1 timeline (c_timelines c')\<rparr>
             else c')
       timelines c"

definition addTimelines ::
  "(timearg \<Rightarrow> num) \<Rightarrow> nat list \<Rightarrow> Control \<times> heap \<Rightarrow> js_error + Control \<times> heap" where
  "addTimelines D timelines w =
     (case w of (c, h) \<Rightarrow>
        (let timelineCount = length (c_timelines c)
         in resetIfTimelinesChanged D timelineCount (push_new timelines c, h)))"

definition removeTimelines ::
  "(timearg \<Rightarrow> num) \<Rightarrow> nat list \<Rightarrow> Control \<times> heap \<Rightarrow> js_error + Control \<times> heap" where
  "removeTimelines D timelines w =
     (case w of (c, h) \<Rightarrow>
        (let timelineCount = length (c_timelines c)
         in resetIfTimelinesChanged D timelineCount (splice_found timelines c, h)))"

section \<open>Example data\<close>

text \<open>
  A date conversion: an integer within the range of dates (at most \<open>8.64e15\<close> in
  absolute value) is its own time value; every other number, and every string, gives
  \<open>NaN\<close>. Two features with the intervals \<open>[0, 10]\<close> and \<open>[5, 15]\<close>, the empty options
  object, and the index built from the two features.
\<close>

definition example_Date :: "timearg \<Rightarrow> num" where
  "example_Date v =
     (case v of
        TNum (Fin n) \<Rightarrow> if \<bar>n\<bar> \<le> 8640000000000000 then Fin n else NaN
      | _ \<Rightarrow> NaN)"

definition featureA :: feature where
  "featureA = \<lparr>ref = 1, properties =
     Some \<lparr>p_start = Some (TNum (Fin 0)), p_end = Some (TNum (Fin 10))\<rparr>\<rparr>"

definition featureB :: feature where
  "featureB = \<lparr>ref = 2, properties =
     Some \<lparr>p_start = Some (TNum (Fin 5)), p_end = Some (TNum (Fin 15))\<rparr>\<rparr>"

definition no_options :: TimelineOptions where
  "no_options = \<lparr>drawOnSetTime = None, o_getInterval = None, o_start = None, o_end = None\<rparr>"

definition example_index :: Timeline where
  "example_index = initialize example_Date [featureA, featureB] no_options"

text \<open>The example index after its first redisplay, and with the selection moved to
  \<open>[11, 12]\<close> but not yet redisplayed.\<close>

definition example_shown :: Timeline where
  "example_shown = updateDisplayedLayers example_index"

definition example_moved :: Timeline where
  "example_moved = example_shown\<lparr>t_timeStart := Fin 11, t_timeEnd := Fin 12\<rparr>"

text \<open>
  A heap in which every reference denotes the example index, the empty options object
  of the control, and a control with one registered timeline, the bounds of the example
  index and its widget built.
\<close>

definition example_heap :: heap where
  "example_heap = (\<lambda>r. example_index)"

definition no_control_options :: ControlOptions where
  "no_control_options =
     \<lparr>showTicks = None, waitToUpdateMap = None, oc_start = None, oc_end = None\<rparr>"

definition example_control :: Control where
  "example_control =
     \<lparr>c_options = control_setOptions no_control_options,
      c_timelines = [1],
      c_start = Fin 0, c_end = Fin 15,
      c_timeStart = Some (Fin 0), c_timeEnd = Some (Fin 15),
      c_timeSlider = Some \<lparr>range_min = Fin 0, range_max = Fin 15,
                            handle_lo = Fin 0, handle_hi = Fin 15,
                            pips = Some [Fin 0, Fin 5, Fin 10, Fin 15]\<rparr>\<rparr>"

text \<open>The example control after the user has dragged the handles to \<open>[5, 6]\<close>.\<close>

definition example_dragged :: "Control \<times> heap" where
  "example_dragged =
     sliderChanged example_Date \<lparr>e_type = ''change'', valueMin = Fin 5, valueMax = Fin 6\<rparr>
       (example_control, example_heap)"

text \<open>The index built from the empty feature collection, and a heap in which every
  reference denotes it.\<close>

definition empty_index :: Timeline where
  "empty_index = initialize example_Date [] no_options"

definition empty_heap :: heap where
  "empty_heap = (\<lambda>r. empty_index)"

text \<open>A feature whose end, \<open>9e15\<close>, is beyond the range of dates, and the index built
  from it.\<close>

definition featureC :: feature where
  "featureC = \<lparr>ref = 3, properties =
     Some \<lparr>p_start = Some (TNum (Fin 0)), p_end = Some (TNum (Fin 9000000000000000))\<rparr>\<rparr>"

definition late_index :: Timeline where
  "late_index = initialize example_Date [featureC] no_options"

section \<open>The order of the numbers\<close>

lemma num_less_simps [simp]:
  "Fin a < Fin b \<longleftrightarrow> a < b"
  "NegInf < Fin a"
  "Fin a < PosInf"
  "NegInf < PosInf"
  "\<not> x < NegInf"
  "PosInf < x \<longleftrightarrow> x = NaN"
  "x < NaN \<longleftrightarrow> x \<noteq> NaN"
  "\<not> NaN < x"
  by (cases x; simp add: less_num_def less_le_not_le)+

text \<open>The comparisons of the program, read through the order.\<close>

lemma js_le_iff: "js_le a b \<longleftrightarrow> a \<le> b \<and> b \<noteq> NaN"
  by (cases a; cases b) (simp_all add: js_le_def)

lemma js_lt_iff: "js_lt a b \<longleftrightarrow> a < b \<and> b \<noteq> NaN"
  by (cases a; cases b) (simp_all add: js_lt_def)

lemma js_eq_iff: "js_eq a b \<longleftrightarrow> a = b \<and> a \<noteq> NaN"
  by (auto simp: js_eq_def)

lemma js_eval [simp]:
  "js_le (Fin a) (Fin b) \<longleftrightarrow> a \<le> b"
  "js_lt (Fin a) (Fin b) \<longleftrightarrow> a < b"
  "js_eq (Fin a) (Fin b) \<longleftrightarrow> a = b"
  "js_le NegInf (Fin a)" "js_le (Fin a) PosInf" "js_le NegInf PosInf"
  "js_le NegInf NegInf" "js_le PosInf PosInf"
  "\<not> js_le (Fin a) NegInf" "\<not> js_le PosInf (Fin a)" "\<not> js_le PosInf NegInf"
  "js_lt NegInf (Fin a)" "js_lt (Fin a) PosInf" "js_lt NegInf PosInf"
  "\<not> js_lt x NegInf" "\<not> js_lt PosInf x"
  "\<not> js_le NaN x" "\<not> js_le x NaN"
  "\<not> js_lt NaN x" "\<not> js_lt x NaN"
  "\<not> js_eq NaN x" "\<not> js_eq x NaN"
  by (cases x; simp add: js_le_def js_lt_def js_eq_def)+

lemma js_min_max_simps [simp]:
  "a \<noteq> NaN \<Longrightarrow> b \<noteq> NaN \<Longrightarrow> js_min a b = min a b"
  "a \<noteq> NaN \<Longrightarrow> b \<noteq> NaN \<Longrightarrow> js_max a b = max a b"
  "js_min NaN b = NaN" "js_min a NaN = NaN" "js_max NaN b = NaN" "js_max a NaN = NaN"
  by (simp_all add: js_min_def js_max_def)

section \<open>Sorting\<close>

lemma set_js_insert: "set (js_insert x ys) = insert x (set ys)"
  by (induction ys) auto

lemma set_js_sort: "set (js_sort xs) = set xs"
  by (induction xs) (simp_all add: js_sort_def set_js_insert)

lemma length_js_insert: "length (js_insert x ys) = Suc (length ys)"
  by (induction ys) auto

lemma length_js_sort: "length (js_sort xs) = length xs"
  by (induction xs) (simp_all add: js_sort_def length_js_insert)

lemma js_insert_insort:
  "x \<noteq> NaN \<Longrightarrow> NaN \<notin> set ys \<Longrightarrow> js_insert x ys = insort x ys"
  by (induction ys) (auto simp: js_lt_iff)

lemma js_sort_sort: "NaN \<notin> set xs \<Longrightarrow> js_sort xs = sort xs"
proof (induction xs)
  case Nil
  then show ?case by (simp add: js_sort_def)
next
  case (Cons x xs)
  then have "js_sort xs = sort xs" and "x \<noteq> NaN" and "NaN \<notin> set (sort xs)"
    by auto
  then show ?case
    using js_insert_insort [of x "sort xs"] by (simp add: js_sort_def)
qed

section \<open>The time list of an index\<close>

text \<open>
  The de-duplicating \<^verbatim>\<open>reduce\<close> of \<^verbatim>\<open>_process\<close> keeps the elements of the list. On a list
  without \<open>NaN\<close> it removes exactly the repetitions of adjacent elements.
\<close>

lemma dedupe_step_cases:
  assumes "acc \<noteq> []" and "0 < k"
  shows "dedupe_step acc (x, k) = (if js_eq (last acc) x then acc else acc @ [x])"
  using assms by (simp add: dedupe_step_def last_opt_def)

lemma dedupe_fold_set:
  "acc \<noteq> [] \<Longrightarrow> 0 < k \<Longrightarrow>
   set (foldl dedupe_step acc (zip xs [k ..< k + length xs])) = set acc \<union> set xs"
proof (induction xs arbitrary: acc k)
  case Nil
  then show ?case by simp
next
  case (Cons x xs)
  have upt: "[k ..< k + length (x # xs)] = k # [Suc k ..< Suc k + length xs]"
    by (simp add: upt_rec)
  have ne: "dedupe_step acc (x, k) \<noteq> []"
    and st: "set (dedupe_step acc (x, k)) = insert x (set acc)"
    using Cons.prems by (auto simp: dedupe_step_cases js_eq_iff)
  show ?case
    using Cons.IH [OF ne, of "Suc k"]
    by (simp only: upt zip_Cons_Cons foldl_Cons) (simp add: st)
qed

lemma dedupe_fold:
  "acc \<noteq> [] \<Longrightarrow> 0 < k \<Longrightarrow> last acc \<noteq> NaN \<Longrightarrow> NaN \<notin> set xs \<Longrightarrow>
   foldl dedupe_step acc (zip xs [k ..< k + length xs]) = butlast acc @ remdups_adj (last acc # xs)"
proof (induction xs arbitrary: acc k)
  case Nil
  then show ?case by simp
next
  case (Cons x xs)
  have upt: "[k ..< k + length (x # xs)] = k # [Suc k ..< Suc k + length xs]"
    by (simp add: upt_rec)
  have x: "x \<noteq> NaN" and xs: "NaN \<notin> set xs"
    using Cons.prems(4) by auto
  show ?case
  proof (cases "last acc = x")
    case True
    with Cons.prems have step: "dedupe_step acc (x, k) = acc"
      by (simp add: dedupe_step_cases js_eq_iff)
    show ?thesis
      using Cons.IH [of acc "Suc k"] Cons.prems(1,3) xs True
      by (simp only: upt zip_Cons_Cons foldl_Cons step) simp
  next
    case False
    with Cons.prems have step: "dedupe_step acc (x, k) = acc @ [x]"
      by (simp add: dedupe_step_cases js_eq_iff)
    show ?thesis
      using Cons.IH [of "acc @ [x]" "Suc k"] Cons.prems(1) x xs False
      by (simp only: upt zip_Cons_Cons foldl_Cons step) (simp add: butlast_append)
  qed
qed

lemma dedupe_times_unfold:
  "dedupe_times (t0 # rest) =
     foldl dedupe_step [t0] (zip rest [Suc 0 ..< Suc 0 + length rest])"
proof -
  have upt: "[0 ..< length (t0 # rest)] = 0 # [Suc 0 ..< Suc 0 + length rest]"
    by (simp add: upt_rec)
  show ?thesis
    unfolding dedupe_times_def list.case upt zip_Cons_Cons foldl_Cons
    by (simp add: dedupe_step_def)
qed

lemma dedupe_times_set: "set (dedupe_times ts) = set ts"
proof (cases ts)
  case Nil
  then show ?thesis by (simp add: dedupe_times_def)
next
  case (Cons t0 rest)
  show ?thesis
    unfolding Cons dedupe_times_unfold
    using dedupe_fold_set [of "[t0]" "Suc 0" rest] by simp
qed

lemma dedupe_times_eq: "NaN \<notin> set ts \<Longrightarrow> dedupe_times ts = remdups_adj ts"
proof (cases ts)
  case Nil
  then show ?thesis by (simp add: dedupe_times_def)
next
  case (Cons t0 rest)
  assume "NaN \<notin> set ts"
  then have "t0 \<noteq> NaN" "NaN \<notin> set rest" using Cons by auto
  then show ?thesis
    unfolding Cons dedupe_times_unfold
    using dedupe_fold [of "[t0]" "Suc 0" rest] by simp
qed

lemma strict_sorted_remdups_adj:
  "sorted xs \<Longrightarrow> sorted_wrt (<) (remdups_adj xs)"
  by (induction xs rule: remdups_adj.induct) (auto simp: less_le)

lemma sorted_wrt_js_lt:
  assumes "sorted_wrt (<) xs" and "NaN \<notin> set xs"
  shows "sorted_wrt js_lt xs"
proof (rule sorted_wrt_mono_rel [OF _ assms(1)])
  fix x y assume "x \<in> set xs" "y \<in> set xs" "x < y"
  then show "js_lt x y" using assms(2) by (auto simp: js_lt_iff)
qed

text \<open>What the \<^verbatim>\<open>forEach\<close> of \<^verbatim>\<open>_process\<close> leaves alone, and what it builds.\<close>

lemma process_feature_frame:
  "t_getInterval (fst (process_feature f st)) = t_getInterval (fst st)"
  "t_options (fst (process_feature f st)) = t_options (fst st)"
  "t_layers (fst (process_feature f st)) = t_layers (fst st)"
  "t_log (fst (process_feature f st)) = t_log (fst st)"
  by (cases st; simp add: process_feature_def split: option.splits)+

lemma fold_process_frame:
  "t_getInterval (fst (fold process_feature fs st)) = t_getInterval (fst st)"
  "t_options (fst (fold process_feature fs st)) = t_options (fst st)"
  "t_layers (fst (fold process_feature fs st)) = t_layers (fst st)"
  "t_log (fst (fold process_feature fs st)) = t_log (fst st)"
  by (induction fs arbitrary: st; simp add: process_feature_frame)+

lemma fold_process_times:
  "t_times (fst (fold process_feature fs st)) =
     t_times (fst st) @
       concat (map (\<lambda>i. [b_start i, b_end i]) (List.map_filter (t_getInterval (fst st)) fs))"
proof (induction fs arbitrary: st)
  case Nil
  then show ?case by simp
next
  case (Cons f fs)
  obtain tm s e where st: "st = (tm, s, e)" by (cases st)
  show ?case
    by (simp add: Cons.IH process_feature_frame)
       (simp add: st process_feature_def split: option.splits)
qed

lemma fold_process_ranges:
  "t_ranges (fst (fold process_feature fs st)) =
     t_ranges (fst st) @
       List.map_filter (\<lambda>f. map_option (\<lambda>i. (b_start i, b_end i, f)) (t_getInterval (fst st) f)) fs"
proof (induction fs arbitrary: st)
  case Nil
  then show ?case by simp
next
  case (Cons f fs)
  obtain tm s e where st: "st = (tm, s, e)" by (cases st)
  show ?case
    by (simp add: Cons.IH process_feature_frame)
       (simp add: st process_feature_def insert_entry_def split: option.splits)
qed

lemma fold_process_bounds:
  "snd (fold process_feature fs st) =
     (fold (\<lambda>v m. js_min m v) (map b_start (List.map_filter (t_getInterval (fst st)) fs))
        (fst (snd st)),
      fold (\<lambda>v m. js_max m v) (map b_end (List.map_filter (t_getInterval (fst st)) fs))
        (snd (snd st)))"
proof (induction fs arbitrary: st)
  case Nil
  then show ?case by simp
next
  case (Cons f fs)
  obtain tm s e where st: "st = (tm, s, e)" by (cases st)
  show ?case
    by (simp add: Cons.IH process_feature_frame)
       (simp add: st process_feature_def split: option.splits)
qed

lemma process_times:
  "t_times (process fs tm) =
     dedupe_times (js_sort (t_times tm @
       concat (map (\<lambda>i. [b_start i, b_end i]) (List.map_filter (t_getInterval tm) fs))))"
proof -
  obtain tm1 s e where f: "fold process_feature fs (tm, PosInf, NegInf) = (tm1, s, e)"
    by (cases "fold process_feature fs (tm, PosInf, NegInf)")
  have t1: "t_times tm1 = t_times tm @
      concat (map (\<lambda>i. [b_start i, b_end i]) (List.map_filter (t_getInterval tm) fs))"
    using fold_process_times [of fs "(tm, PosInf, NegInf)"] by (simp add: f)
  have e: "t_times tm1 = [] \<Longrightarrow> dedupe_times (js_sort (t_times tm1)) = []"
    by (simp add: js_sort_def dedupe_times_def)
  show ?thesis
    using e by (auto simp add: process_def f Let_def t1 [symmetric])
qed

lemma initialize_times:
  "t_times (initialize D geojson options) =
     dedupe_times (js_sort (concat (map (\<lambda>i. [b_start i, b_end i])
       (List.map_filter (resolve_getInterval D options) geojson))))"
  by (simp add: initialize_def process_times)

text \<open>
  C6, as the code has it. After construction the elements of the time list of an index
  are exactly the start and end values of the intervals that were extracted from the
  features of the collection. When none of these values is \<open>NaN\<close>, the time list is
  strictly increasing by \<^verbatim>\<open><\<close>: sorted, with no repeated value.
\<close>

theorem times_strictly_increasing_unless_NaN:
  "set (t_times (initialize D geojson options)) =
     b_start ` set (List.map_filter (resolve_getInterval D options) geojson) \<union>
     b_end ` set (List.map_filter (resolve_getInterval D options) geojson) \<and>
   (NaN \<notin> b_start ` set (List.map_filter (resolve_getInterval D options) geojson) \<union>
           b_end ` set (List.map_filter (resolve_getInterval D options) geojson) \<longrightarrow>
    sorted_wrt js_lt (t_times (initialize D geojson options)))"
proof -
  let ?ivs = "List.map_filter (resolve_getInterval D options) geojson"
  let ?ends = "concat (map (\<lambda>i. [b_start i, b_end i]) ?ivs)"
  have s: "set ?ends = b_start ` set ?ivs \<union> b_end ` set ?ivs"
    by auto
  have a: "set (t_times (initialize D geojson options)) = b_start ` set ?ivs \<union> b_end ` set ?ivs"
    unfolding initialize_times dedupe_times_set set_js_sort by (rule s)
  have b: "sorted_wrt js_lt (t_times (initialize D geojson options))"
    if n: "NaN \<notin> b_start ` set ?ivs \<union> b_end ` set ?ivs"
  proof -
    have n': "NaN \<notin> set ?ends" using n unfolding s .
    then have "t_times (initialize D geojson options) = remdups_adj (sort ?ends)"
      unfolding initialize_times by (simp add: js_sort_sort dedupe_times_eq)
    moreover have "sorted_wrt (<) (remdups_adj (sort ?ends))"
      by (simp add: strict_sorted_remdups_adj)
    moreover have "NaN \<notin> set (remdups_adj (sort ?ends))"
      using n' by simp
    ultimately show ?thesis
      by (simp add: sorted_wrt_js_lt)
  qed
  show ?thesis
    using a b by blast
qed

section \<open>Redisplay\<close>

text \<open>The inner search either fails, on a feature that is not in the working list, or
  removes one occurrence of it.\<close>

lemma find_splice_None: "find_splice x fs = None \<longleftrightarrow> x \<notin> set fs"
  by (induction fs) auto

lemma find_splice_Some: "find_splice x fs = Some fs' \<Longrightarrow> mset fs = add_mset x (mset fs')"
  by (induction fs arbitrary: fs') (auto split: if_splits)

lemma match_layers_acc:
  "match_layers ls fs acc = (fst (match_layers ls fs []), acc @ snd (match_layers ls fs []))"
proof (induction ls arbitrary: fs acc)
  case Nil
  then show ?case by simp
next
  case (Cons l ls)
  show ?case
  proof (cases "find_splice (l_feature l) fs")
    case None
    then show ?thesis
      using Cons.IH [of fs "acc @ [l]"] Cons.IH [of fs "[l]"] by simp
  next
    case (Some fs')
    then show ?thesis
      using Cons.IH [of fs' acc] by simp
  qed
qed

lemma match_layers_subset: "set (snd (match_layers ls fs [])) \<subseteq> set ls"
proof (induction ls arbitrary: fs)
  case Nil
  then show ?case by simp
next
  case (Cons l ls)
  show ?case
  proof (cases "find_splice (l_feature l) fs")
    case None
    then show ?thesis
      using Cons.IH [of fs] match_layers_acc [of ls fs "[l]"] by auto
  next
    case (Some fs')
    then show ?thesis
      using Cons.IH [of fs'] by auto
  qed
qed

lemma match_layers_mset:
  "distinct (map lid ls) \<Longrightarrow>
   mset (map l_feature (filter (\<lambda>x. lid x \<notin> lid ` set (snd (match_layers ls fs []))) ls)) +
     mset (fst (match_layers ls fs [])) = mset fs"
proof (induction ls arbitrary: fs)
  case Nil
  then show ?case by simp
next
  case (Cons l ls)
  from Cons.prems have fresh: "lid l \<notin> lid ` set ls" and dist: "distinct (map lid ls)"
    by auto
  show ?case
  proof (cases "find_splice (l_feature l) fs")
    case None
    have ml: "match_layers (l # ls) fs [] =
        (fst (match_layers ls fs []), l # snd (match_layers ls fs []))"
      using None match_layers_acc [of ls fs "[l]"] by simp
    have "filter (\<lambda>x. lid x \<notin> lid ` set (l # snd (match_layers ls fs []))) ls =
          filter (\<lambda>x. lid x \<notin> lid ` set (snd (match_layers ls fs []))) ls"
      using fresh by (intro filter_cong) (auto simp: image_iff)
    then show ?thesis
      unfolding ml using Cons.IH [OF dist, of fs] by simp
  next
    case (Some fs')
    have ml: "match_layers (l # ls) fs [] = match_layers ls fs' []"
      using Some by simp
    have keep: "lid l \<notin> lid ` set (snd (match_layers ls fs' []))"
      using fresh match_layers_subset [of ls fs'] by auto
    show ?thesis
      unfolding ml using Cons.IH [OF dist, of fs'] keep find_splice_Some [OF Some]
      by simp
  qed
qed

lemma match_layers_all_matched:
  "mset (map l_feature ls) = mset fs \<Longrightarrow> match_layers ls fs [] = ([], [])"
proof (induction ls arbitrary: fs)
  case Nil
  then show ?case by simp
next
  case (Cons l ls)
  have "l_feature l \<in> set fs"
    using Cons.prems by (metis list.set_intros(1) list.simps(9) mset_eq_setD)
  then obtain fs' where sp: "find_splice (l_feature l) fs = Some fs'"
    using find_splice_None [of "l_feature l" fs] by (cases "find_splice (l_feature l) fs") auto
  have "mset (map l_feature ls) = mset fs'"
    using Cons.prems find_splice_Some [OF sp] by simp
  then show ?case
    using Cons.IH [of fs'] sp by simp
qed

lemma fold_removeLayer:
  "fold removeLayer rs tm =
     tm\<lparr>t_layers := filter (\<lambda>x. lid x \<notin> lid ` set rs) (t_layers tm),
        t_log := t_log tm @ map (\<lambda>l. RemoveLayer (lid l)) rs\<rparr>"
proof (induction rs arbitrary: tm)
  case Nil
  then show ?case by simp
next
  case (Cons r rs)
  have "fold removeLayer (r # rs) tm = fold removeLayer rs (removeLayer r tm)"
    by simp
  also have "\<dots> = (removeLayer r tm)
      \<lparr>t_layers := filter (\<lambda>x. lid x \<notin> lid ` set rs) (t_layers (removeLayer r tm)),
       t_log := t_log (removeLayer r tm) @ map (\<lambda>l. RemoveLayer (lid l)) rs\<rparr>"
    by (rule Cons.IH)
  also have "\<dots> = tm\<lparr>t_layers := filter (\<lambda>x. lid x \<notin> lid ` set (r # rs)) (t_layers tm),
        t_log := t_log tm @ map (\<lambda>l. RemoveLayer (lid l)) (r # rs)\<rparr>"
    by (simp add: removeLayer_def conj_commute)
  finally show ?case .
qed

lemma fold_addData_frame:
  "t_ranges (fold addData fs tm) = t_ranges tm"
  "t_timeStart (fold addData fs tm) = t_timeStart tm"
  "t_timeEnd (fold addData fs tm) = t_timeEnd tm"
  "t_start (fold addData fs tm) = t_start tm"
  "t_end (fold addData fs tm) = t_end tm"
  "t_times (fold addData fs tm) = t_times tm"
  "t_options (fold addData fs tm) = t_options tm"
  "t_getInterval (fold addData fs tm) = t_getInterval tm"
  by (induction fs arbitrary: tm; simp add: addData_def)+

lemma fold_addData_layers:
  "map l_feature (t_layers (fold addData fs tm)) = map l_feature (t_layers tm) @ fs"
  by (induction fs arbitrary: tm) (simp_all add: addData_def)

lemma fold_addData_log:
  "t_log (fold addData fs tm) = t_log tm @ map AddData fs"
  by (induction fs arbitrary: tm) (simp_all add: addData_def)

lemma updateDisplayedLayers_frame:
  "t_ranges (updateDisplayedLayers tm) = t_ranges tm"
  "t_timeStart (updateDisplayedLayers tm) = t_timeStart tm"
  "t_timeEnd (updateDisplayedLayers tm) = t_timeEnd tm"
  "t_start (updateDisplayedLayers tm) = t_start tm"
  "t_end (updateDisplayedLayers tm) = t_end tm"
  "t_times (updateDisplayedLayers tm) = t_times tm"
  "t_options (updateDisplayedLayers tm) = t_options tm"
  "t_getInterval (updateDisplayedLayers tm) = t_getInterval tm"
  by (simp_all add: updateDisplayedLayers_def Let_def fold_addData_frame fold_removeLayer
        split: prod.splits)

lemma updateDisplayedLayers_mset:
  assumes "distinct (map lid (t_layers tm))"
  shows "mset (map l_feature (t_layers (updateDisplayedLayers tm))) =
         mset (overlap (t_ranges tm) (t_timeStart tm) (t_timeEnd tm))"
proof -
  let ?fs = "overlap (t_ranges tm) (t_timeStart tm) (t_timeEnd tm)"
  obtain fs' rs where m: "match_layers (t_layers tm) ?fs [] = (fs', rs)"
    by (cases "match_layers (t_layers tm) ?fs []")
  have "mset (map l_feature (filter (\<lambda>x. lid x \<notin> lid ` set rs) (t_layers tm))) + mset fs' = mset ?fs"
    using match_layers_mset [OF assms, of ?fs] by (simp add: m)
  then show ?thesis
    by (simp add: updateDisplayedLayers_def getLayers_def m fold_addData_layers fold_removeLayer)
qed

text \<open>
  C1. After a call of \<^verbatim>\<open>updateDisplayedLayers\<close> the features of the displayed layers are
  exactly the features returned by \<^verbatim>\<open>overlap(timeStart, timeEnd)\<close>: none is displayed that
  is outside the result, and every feature of the result is displayed. The layers of the
  group are distinct objects (their stamps differ).
\<close>

theorem displayed_equals_overlap:
  "distinct (map lid (t_layers tm)) \<Longrightarrow>
   set (map l_feature (t_layers (updateDisplayedLayers tm))) =
   set (overlap (t_ranges tm) (t_timeStart tm) (t_timeEnd tm))"
  using updateDisplayedLayers_mset [of tm] by (metis mset_eq_setD)

lemma updateDisplayedLayers_fixed:
  assumes "mset (map l_feature (t_layers tm)) = mset (overlap (t_ranges tm) (t_timeStart tm) (t_timeEnd tm))"
  shows "updateDisplayedLayers tm = tm"
  using match_layers_all_matched [OF assms]
  by (simp add: updateDisplayedLayers_def getLayers_def)

text \<open>
  C8. A second call of \<^verbatim>\<open>updateDisplayedLayers\<close>, with the selection and the indexed
  features unchanged, sends no command to the view: it adds no layer and removes none,
  and leaves the whole state as the first call left it.
\<close>

theorem redisplay_idempotent:
  "distinct (map lid (t_layers tm)) \<Longrightarrow>
   updateDisplayedLayers (updateDisplayedLayers tm) = updateDisplayedLayers tm \<and>
   t_log (updateDisplayedLayers (updateDisplayedLayers tm)) = t_log (updateDisplayedLayers tm)"
  using updateDisplayedLayers_fixed [of "updateDisplayedLayers tm"] updateDisplayedLayers_mset [of tm]
  by (simp add: updateDisplayedLayers_frame)

section \<open>The bounds and the tree of an index\<close>

lemma process_ranges:
  "t_ranges (process fs tm) =
     t_ranges tm @
       List.map_filter (\<lambda>f. map_option (\<lambda>i. (b_start i, b_end i, f)) (t_getInterval tm f)) fs"
proof -
  obtain tm1 s e where f: "fold process_feature fs (tm, PosInf, NegInf) = (tm1, s, e)"
    by (cases "fold process_feature fs (tm, PosInf, NegInf)")
  have "t_ranges tm1 = t_ranges tm @
       List.map_filter (\<lambda>f. map_option (\<lambda>i. (b_start i, b_end i, f)) (t_getInterval tm f)) fs"
    using fold_process_ranges [of fs "(tm, PosInf, NegInf)"] by (simp add: f)
  then show ?thesis
    by (simp add: process_def f Let_def)
qed

lemma process_bounds:
  "t_start (process fs tm) =
     or_else (o_start (t_options tm))
       (fold (\<lambda>v m. js_min m v) (map b_start (List.map_filter (t_getInterval tm) fs)) PosInf)"
  "t_end (process fs tm) =
     or_else (o_end (t_options tm))
       (fold (\<lambda>v m. js_max m v) (map b_end (List.map_filter (t_getInterval tm) fs)) NegInf)"
  "t_timeStart (process fs tm) = t_start (process fs tm)"
  "t_timeEnd (process fs tm) = t_end (process fs tm)"
proof -
  obtain tm1 s e where f: "fold process_feature fs (tm, PosInf, NegInf) = (tm1, s, e)"
    by (cases "fold process_feature fs (tm, PosInf, NegInf)")
  have b: "s = fold (\<lambda>v m. js_min m v) (map b_start (List.map_filter (t_getInterval tm) fs)) PosInf"
    "e = fold (\<lambda>v m. js_max m v) (map b_end (List.map_filter (t_getInterval tm) fs)) NegInf"
    using fold_process_bounds [of fs "(tm, PosInf, NegInf)"] by (simp_all add: f)
  have o: "t_options tm1 = t_options tm"
    using fold_process_frame(2) [of fs "(tm, PosInf, NegInf)"] by (simp add: f)
  show "t_start (process fs tm) =
     or_else (o_start (t_options tm))
       (fold (\<lambda>v m. js_min m v) (map b_start (List.map_filter (t_getInterval tm) fs)) PosInf)"
    by (simp add: process_def f Let_def o b)
  show "t_end (process fs tm) =
     or_else (o_end (t_options tm))
       (fold (\<lambda>v m. js_max m v) (map b_end (List.map_filter (t_getInterval tm) fs)) NegInf)"
    by (simp add: process_def f Let_def o b)
  show "t_timeStart (process fs tm) = t_start (process fs tm)"
    by (simp add: process_def f Let_def)
  show "t_timeEnd (process fs tm) = t_end (process fs tm)"
    by (simp add: process_def f Let_def)
qed

lemma process_frame:
  "t_layers (process fs tm) = t_layers tm"
  "t_log (process fs tm) = t_log tm"
  "t_options (process fs tm) = t_options tm"
  "t_getInterval (process fs tm) = t_getInterval tm"
proof -
  obtain tm1 s e where f: "fold process_feature fs (tm, PosInf, NegInf) = (tm1, s, e)"
    by (cases "fold process_feature fs (tm, PosInf, NegInf)")
  have o: "t_options tm1 = t_options tm" "t_layers tm1 = t_layers tm" "t_log tm1 = t_log tm"
    "t_getInterval tm1 = t_getInterval tm"
    using fold_process_frame [of fs "(tm, PosInf, NegInf)"] by (simp_all add: f)
  show "t_layers (process fs tm) = t_layers tm" "t_log (process fs tm) = t_log tm"
    "t_options (process fs tm) = t_options tm" "t_getInterval (process fs tm) = t_getInterval tm"
    by (simp_all add: process_def f Let_def o)
qed

lemma set_map_filter: "set (List.map_filter g xs) = {y. \<exists>x\<in>set xs. g x = Some y}"
  by (induction xs) (auto split: option.splits)

lemma overlap_member:
  "f \<in> set (overlap tree qs qe) \<longleftrightarrow>
     (\<exists>s e. (s, e, f) \<in> set tree \<and> js_le s qe \<and> js_le qs e)"
  by (force simp: overlap_def intersects_def)

text \<open>
  C2. For a feature of the collection whose interval \<open>[s, e]\<close> was extracted, and any
  query \<open>[qs, qe]\<close>, the feature is in \<open>overlap qs qe\<close> exactly when \<^verbatim>\<open>s <= qe\<close> and
  \<^verbatim>\<open>e >= qs\<close>, by the comparisons of the program. Nothing is asked of the order of \<open>qs\<close>
  and \<open>qe\<close>: the query is a total function and the same condition decides an inverted
  query.
\<close>

theorem overlap_correct:
  assumes "f \<in> set geojson" and "resolve_getInterval D options f = Some i"
  shows "f \<in> set (overlap (t_ranges (initialize D geojson options)) qs qe) \<longleftrightarrow>
         js_le (b_start i) qe \<and> js_le qs (b_end i)"
proof -
  have "\<And>s e. (s, e, f) \<in> set (t_ranges (initialize D geojson options)) \<longleftrightarrow>
      s = b_start i \<and> e = b_end i"
    using assms by (auto simp: initialize_def process_ranges set_map_filter)
  then show ?thesis
    by (simp add: overlap_member)
qed

text \<open>
  C4. An index built from one feature with the interval \<open>[5, 15]\<close> and the options
  \<^verbatim>\<open>{start: 0, end: 0}\<close> has the bounds \<open>5\<close> and \<open>15\<close>: \<^verbatim>\<open>this.options.start || start\<close>
  takes the pinned \<open>0\<close> for an absent option.
\<close>

theorem pinned_zero_ignored:
  "t_start (initialize example_Date [featureB]
      (no_options\<lparr>o_start := Some (Fin 0), o_end := Some (Fin 0)\<rparr>)) = Fin 5 \<and>
   t_end (initialize example_Date [featureB]
      (no_options\<lparr>o_start := Some (Fin 0), o_end := Some (Fin 0)\<rparr>)) = Fin 15"
  by (simp add: initialize_def process_bounds setOptions_def no_options_def or_else_def truthy_def
      resolve_getInterval_def getInterval_default_def featureB_def example_Date_def)

section \<open>Setting the selection of an index\<close>

lemma fire_simps:
  "t_timeStart (fire ev tm) = t_timeStart tm"
  "t_timeEnd (fire ev tm) = t_timeEnd tm"
  "t_ranges (fire ev tm) = t_ranges tm"
  "t_times (fire ev tm) = t_times tm"
  "t_start (fire ev tm) = t_start tm"
  "t_end (fire ev tm) = t_end tm"
  "t_options (fire ev tm) = t_options tm"
  "t_layers (fire ev tm) = t_layers tm"
  "t_log (fire ev tm) = t_log tm @ [Fire ev]"
  by (simp_all add: fire_def)

lemma setStartTime_fields:
  "t_timeStart (setStartTime D time tm) = to_time D time"
  "t_timeEnd (setStartTime D time tm) = t_timeEnd tm"
  "t_ranges (setStartTime D time tm) = t_ranges tm"
  "t_times (setStartTime D time tm) = t_times tm"
  "t_start (setStartTime D time tm) = t_start tm"
  "t_end (setStartTime D time tm) = t_end tm"
  "t_options (setStartTime D time tm) = t_options tm"
  by (simp_all add: setStartTime_def Let_def fire_simps updateDisplayedLayers_frame)

lemma setEndTime_fields:
  "t_timeEnd (setEndTime D time tm) = to_time D time"
  "t_timeStart (setEndTime D time tm) = t_timeStart tm"
  "t_ranges (setEndTime D time tm) = t_ranges tm"
  "t_times (setEndTime D time tm) = t_times tm"
  "t_start (setEndTime D time tm) = t_start tm"
  "t_end (setEndTime D time tm) = t_end tm"
  "t_options (setEndTime D time tm) = t_options tm"
  by (simp_all add: setEndTime_def Let_def fire_simps updateDisplayedLayers_frame)

text \<open>
  C9. \<^verbatim>\<open>setStartTime\<close> assigns the converted time to \<open>timeStart\<close> and leaves \<open>timeEnd\<close>,
  the tree and the time list as they were. When \<^verbatim>\<open>drawOnSetTime\<close> is on, the layers and
  the commands sent to the view are those of \<^verbatim>\<open>updateDisplayedLayers\<close> run on the new
  selection; when it is off, the layers are untouched and no command is sent. In both
  cases the last thing the call does is fire \<^verbatim>\<open>change\<close>. \<^verbatim>\<open>setEndTime\<close> does the same
  with \<open>timeEnd\<close>.
\<close>

theorem setStartTime_setEndTime_effect:
  "t_timeStart (setStartTime D time tm) = to_time D time \<and>
   t_timeEnd (setStartTime D time tm) = t_timeEnd tm \<and>
   t_ranges (setStartTime D time tm) = t_ranges tm \<and>
   t_times (setStartTime D time tm) = t_times tm \<and>
   t_layers (setStartTime D time tm) =
     (if drawOnSetTime (t_options tm) = Some True
      then t_layers (updateDisplayedLayers (tm\<lparr>t_timeStart := to_time D time\<rparr>))
      else t_layers tm) \<and>
   t_log (setStartTime D time tm) =
     (if drawOnSetTime (t_options tm) = Some True
      then t_log (updateDisplayedLayers (tm\<lparr>t_timeStart := to_time D time\<rparr>))
      else t_log tm) @ [Fire ''change''] \<and>
   t_timeEnd (setEndTime D time tm) = to_time D time \<and>
   t_timeStart (setEndTime D time tm) = t_timeStart tm \<and>
   t_ranges (setEndTime D time tm) = t_ranges tm \<and>
   t_times (setEndTime D time tm) = t_times tm \<and>
   t_layers (setEndTime D time tm) =
     (if drawOnSetTime (t_options tm) = Some True
      then t_layers (updateDisplayedLayers (tm\<lparr>t_timeEnd := to_time D time\<rparr>))
      else t_layers tm) \<and>
   t_log (setEndTime D time tm) =
     (if drawOnSetTime (t_options tm) = Some True
      then t_log (updateDisplayedLayers (tm\<lparr>t_timeEnd := to_time D time\<rparr>))
      else t_log tm) @ [Fire ''change'']"
  by (simp add: setStartTime_fields setEndTime_fields)
     (simp add: setStartTime_def setEndTime_def Let_def fire_simps)

section \<open>The example index\<close>

lemma example_index_eval:
  "example_index =
     \<lparr>t_start = Fin 0, t_end = Fin 15, t_timeStart = Fin 0, t_timeEnd = Fin 15,
      t_times = [Fin 0, Fin 5, Fin 10, Fin 15],
      t_ranges = [(Fin 0, Fin 10, featureA), (Fin 5, Fin 15, featureB)],
      t_options = \<lparr>drawOnSetTime = Some True, o_getInterval = None, o_start = None, o_end = None\<rparr>,
      t_getInterval = getInterval_default example_Date,
      t_layers = [], t_log = []\<rparr>"
  by (simp add: example_index_def initialize_def process_def process_feature_def Let_def
      resolve_getInterval_def getInterval_default_def featureA_def featureB_def example_Date_def
      no_options_def setOptions_def or_else_def insert_entry_def js_sort_def dedupe_times_eq)

lemma features_differ: "featureA \<noteq> featureB"
  by (simp add: featureA_def featureB_def)

lemma example_shown_eval:
  "example_shown =
     \<lparr>t_start = Fin 0, t_end = Fin 15, t_timeStart = Fin 0, t_timeEnd = Fin 15,
      t_times = [Fin 0, Fin 5, Fin 10, Fin 15],
      t_ranges = [(Fin 0, Fin 10, featureA), (Fin 5, Fin 15, featureB)],
      t_options = \<lparr>drawOnSetTime = Some True, o_getInterval = None, o_start = None, o_end = None\<rparr>,
      t_getInterval = getInterval_default example_Date,
      t_layers = [\<lparr>lid = 1, l_feature = featureA\<rparr>, \<lparr>lid = 2, l_feature = featureB\<rparr>],
      t_log = [AddData featureA, AddData featureB]\<rparr>"
  by (simp add: example_shown_def updateDisplayedLayers_def example_index_eval overlap_def
      intersects_def getLayers_def addData_def stamp_def)

lemma example_moved_eval:
  "example_moved =
     \<lparr>t_start = Fin 0, t_end = Fin 15, t_timeStart = Fin 11, t_timeEnd = Fin 12,
      t_times = [Fin 0, Fin 5, Fin 10, Fin 15],
      t_ranges = [(Fin 0, Fin 10, featureA), (Fin 5, Fin 15, featureB)],
      t_options = \<lparr>drawOnSetTime = Some True, o_getInterval = None, o_start = None, o_end = None\<rparr>,
      t_getInterval = getInterval_default example_Date,
      t_layers = [\<lparr>lid = 1, l_feature = featureA\<rparr>, \<lparr>lid = 2, l_feature = featureB\<rparr>],
      t_log = [AddData featureA, AddData featureB]\<rparr>"
  by (simp add: example_moved_def example_shown_eval)

lemma example_moved_layers: "distinct (map lid (t_layers example_moved))"
  by (simp add: example_moved_eval)

lemma example_moved_overlap:
  "overlap (t_ranges example_moved) (t_timeStart example_moved) (t_timeEnd example_moved) = [featureB]"
  by (simp add: example_moved_eval overlap_def intersects_def)

lemma example_moved_log:
  "t_log (updateDisplayedLayers example_moved) = [AddData featureA, AddData featureB, RemoveLayer 1]"
  using features_differ
  by (simp add: updateDisplayedLayers_def example_moved_overlap getLayers_def)
     (simp add: example_moved_eval removeLayer_def)

theorem displayed_equals_overlap_witness:
  "distinct (map lid (t_layers example_moved)) \<and>
   set (map l_feature (t_layers (updateDisplayedLayers example_moved))) = {featureB}"
  using example_moved_layers displayed_equals_overlap [OF example_moved_layers]
  by (simp add: example_moved_overlap)

theorem redisplay_idempotent_witness:
  "distinct (map lid (t_layers example_moved)) \<and>
   t_log (updateDisplayedLayers (updateDisplayedLayers example_moved)) =
     [AddData featureA, AddData featureB, RemoveLayer 1]"
  using example_moved_layers redisplay_idempotent [OF example_moved_layers]
  by (simp add: example_moved_log)

theorem overlap_correct_witness:
  "featureA \<in> set [featureA, featureB] \<and>
   resolve_getInterval example_Date no_options featureA = Some \<lparr>b_start = Fin 0, b_end = Fin 10\<rparr> \<and>
   featureA \<in> set (overlap (t_ranges example_index) (Fin 8) (Fin 3)) \<and>
   featureA \<notin> set (overlap (t_ranges example_index) (Fin 12) (Fin 11))"
proof -
  have m: "featureA \<in> set [featureA, featureB]" by simp
  have g: "resolve_getInterval example_Date no_options featureA =
      Some \<lparr>b_start = Fin 0, b_end = Fin 10\<rparr>"
    by (simp add: resolve_getInterval_def no_options_def getInterval_default_def featureA_def
        example_Date_def)
  show ?thesis
    using m g overlap_correct [OF m g, of "Fin 8" "Fin 3"] overlap_correct [OF m g, of "Fin 12" "Fin 11"]
    by (simp add: example_index_def)
qed

section \<open>A time list with \<open>NaN\<close>\<close>

lemma example_intervals:
  "List.map_filter (resolve_getInterval example_Date no_options) [featureA, featureB] =
     [\<lparr>b_start = Fin 0, b_end = Fin 10\<rparr>, \<lparr>b_start = Fin 5, b_end = Fin 15\<rparr>]"
  by (simp add: resolve_getInterval_def no_options_def getInterval_default_def featureA_def
      featureB_def example_Date_def)

theorem times_strictly_increasing_unless_NaN_witness:
  "t_times example_index = [Fin 0, Fin 5, Fin 10, Fin 15] \<and>
   sorted_wrt js_lt (t_times example_index)"
proof -
  have n: "NaN \<notin> b_start ` set (List.map_filter (resolve_getInterval example_Date no_options)
                          [featureA, featureB]) \<union>
               b_end ` set (List.map_filter (resolve_getInterval example_Date no_options)
                          [featureA, featureB])"
    unfolding example_intervals by simp
  have "sorted_wrt js_lt (t_times (initialize example_Date [featureA, featureB] no_options))"
    using times_strictly_increasing_unless_NaN [of example_Date "[featureA, featureB]" no_options] n
    by blast
  then show ?thesis
    by (simp add: example_index_def [symmetric]) (simp add: example_index_eval)
qed

text \<open>
  The feature with the end \<open>9e15\<close> is indexed with the interval \<open>[0, NaN]\<close>. No element
  of the time list \<open>[0, NaN]\<close> is below another one by \<^verbatim>\<open><\<close>, so the list is not strictly
  increasing.
\<close>

lemma late_interval:
  "resolve_getInterval example_Date no_options featureC = Some \<lparr>b_start = Fin 0, b_end = NaN\<rparr>"
  by (simp add: resolve_getInterval_def no_options_def getInterval_default_def featureC_def
      example_Date_def)

lemma late_times: "t_times late_index = [Fin 0, NaN]"
  by (simp add: late_index_def initialize_times late_interval js_sort_def dedupe_times_unfold
      dedupe_step_cases)

theorem times_with_NaN_counterexample:
  "t_times late_index = [Fin 0, NaN] \<and> \<not> sorted_wrt js_lt (t_times late_index)"
  by (simp add: late_times)

text \<open>
  Whatever permutation an implementation's sort returns on an array with \<open>NaN\<close>, the list
  it leaves is not strictly increasing once it has a second element.
\<close>

lemma NaN_not_strictly_increasing:
  "NaN \<in> set xs \<Longrightarrow> 2 \<le> length xs \<Longrightarrow> \<not> sorted_wrt js_lt xs"
proof
  assume n: "NaN \<in> set xs" and l: "2 \<le> length xs" and s: "sorted_wrt js_lt xs"
  obtain i where i: "i < length xs" "xs ! i = NaN"
    using n by (auto simp: in_set_conv_nth)
  obtain j where j: "j < length xs" "j \<noteq> i"
    using l i(1) by (cases "i = 0") (auto intro: that [of 0] that [of 1])
  have "js_lt (xs ! i) (xs ! j) \<or> js_lt (xs ! j) (xs ! i)"
    using s i(1) j by (cases "i < j") (auto simp: sorted_wrt_iff_nth_less)
  then show False
    using i(2) by simp
qed

section \<open>The merged time list\<close>

text \<open>
  The range filter of \<^verbatim>\<open>_getTimes\<close> lets no \<open>NaN\<close> through, so its sort is a sort and its
  \<^verbatim>\<open>reduce\<close> removes the adjacent repetitions.
\<close>

lemma reduce_dedupe_eq:
  "NaN \<notin> set (a # bs) \<Longrightarrow> reduce_dedupe a bs acc = acc @ tl (remdups_adj (a # bs))"
proof (induction bs arbitrary: a acc)
  case Nil
  then show ?case by simp
next
  case (Cons b bs)
  have "b # tl (remdups_adj (b # bs)) = remdups_adj (b # bs)"
    by (rule remdups_adj_Cons_alt)
  then show ?case
    using Cons.prems by (auto simp add: Cons.IH js_eq_iff)
qed

lemma fold_append_concat:
  "fold (\<lambda>x acc. acc @ g x) xs acc0 = acc0 @ concat (map g xs)"
  by (induction xs arbitrary: acc0) simp_all

lemma getTimes_eq:
  "getTimes h c =
     remdups_adj (sort (concat (map
       (\<lambda>timeline. filter (\<lambda>time. js_le (c_start c) time \<and> js_le time (c_end c))
                     (t_times (h timeline)))
       (c_timelines c))))"
proof -
  define ts where "ts = concat (map
       (\<lambda>timeline. filter (\<lambda>time. js_le (c_start c) time \<and> js_le time (c_end c))
                     (t_times (h timeline)))
       (c_timelines c))"
  have g: "getTimes h c =
      (if length ts \<noteq> 0
       then (case js_sort ts of [] \<Rightarrow> [] | t0 # rest \<Rightarrow> reduce_dedupe t0 rest [t0])
       else ts)"
    by (simp add: getTimes_def fold_append_concat ts_def)
  have n: "NaN \<notin> set ts"
    by (auto simp: ts_def)
  have "getTimes h c = remdups_adj (sort ts)"
  proof (cases "sort ts")
    case Nil
    then have "ts = []"
      by (metis length_0_conv length_sort)
    then show ?thesis
      by (simp add: g js_sort_def)
  next
    case (Cons t0 rest)
    then have ne: "ts \<noteq> []" by auto
    have n': "NaN \<notin> set (t0 # rest)"
      using n Cons by (metis set_sort)
    have "t0 # tl (remdups_adj (t0 # rest)) = remdups_adj (t0 # rest)"
      by (rule remdups_adj_Cons_alt)
    then show ?thesis
      using ne Cons by (simp add: g js_sort_sort [OF n] reduce_dedupe_eq [OF n'])
  qed
  then show ?thesis
    by (simp add: ts_def)
qed

lemma getTimes_sorted: "sorted_wrt (<) (getTimes h c)"
  by (simp add: getTimes_eq strict_sorted_remdups_adj)

lemma getTimes_set:
  "set (getTimes h c) =
     {time. \<exists>timeline\<in>set (c_timelines c).
        time \<in> set (t_times (h timeline)) \<and>
        js_le (c_start c) time \<and> js_le time (c_end c)}"
  by (auto simp: getTimes_eq)

lemma getTimes_no_NaN: "NaN \<notin> set (getTimes h c)"
  by (simp add: getTimes_set)

text \<open>
  C10. When no registered timeline has a time within \<open>[start, end]\<close> (by the comparisons
  of the program), the merged time list is empty and \<^verbatim>\<open>_nearestEventTime\<close> returns \<^verbatim>\<open>undefined\<close> for every \<open>findTime\<close> and
  every mode; it raises nothing.
\<close>

theorem nearest_on_empty_list:
  assumes "\<forall>timeline\<in>set (c_timelines c). \<forall>time\<in>set (t_times (h timeline)).
             \<not> (js_le (c_start c) time \<and> js_le time (c_end c))"
  shows "getTimes h c = [] \<and> nearestEventTime h c findTime mode = None"
proof -
  have "set (getTimes h c) = {}"
    using assms by (auto simp: getTimes_set)
  then show ?thesis
    by (simp add: nearestEventTime_def)
qed

section \<open>The nearest event\<close>

text \<open>On a time that is not \<open>NaN\<close> the comparisons of the loop are those of the order.\<close>

lemma nearest_loop_next:
  "nearest_loop findTime mode True lastTime rest = (case rest of [] \<Rightarrow> lastTime | n # _ \<Rightarrow> n)"
  by (cases rest) simp_all

lemma nearest_loop_step:
  "time \<noteq> NaN \<Longrightarrow>
   nearest_loop findTime mode False lastTime (time # rest) =
     (if findTime \<le> time then
        (if mode = - 1 then lastTime
         else if time = findTime then nearest_loop findTime mode True time rest
         else time)
      else nearest_loop findTime mode False time rest)"
  by (auto simp: js_le_iff js_eq_iff)

lemma Min_above_hd:
  assumes "sorted_wrt (<) (x # xs)" and "findTime < x"
  shows "Min {t \<in> set (x # xs). findTime < t} = x"
proof -
  have "\<And>t. t \<in> set xs \<Longrightarrow> x < t" using assms(1) by simp
  then show ?thesis
    using assms(2) by (intro Min_eqI) (auto simp: less_imp_le)
qed

lemma nearest_loop_forward:
  assumes "sorted_wrt (<) (lastTime # rest)" and "lastTime \<le> findTime" and "mode \<noteq> - 1"
    and "NaN \<notin> set rest"
  shows "nearest_loop findTime mode False lastTime rest =
     (if \<exists>t\<in>set rest. findTime < t then Min {t \<in> set rest. findTime < t}
      else last (lastTime # rest))"
  using assms
proof (induction rest arbitrary: lastTime)
  case Nil
  then show ?case by simp
next
  case (Cons time rest)
  have s: "sorted_wrt (<) (time # rest)" using Cons.prems(1) by simp
  have tn: "time \<noteq> NaN" and rn: "NaN \<notin> set rest"
    using Cons.prems(4) by auto
  note nearest_loop.simps(2) [simp del]
  note step [simp] = nearest_loop_step [OF tn]
  consider (gt) "findTime < time" | (eq) "time = findTime" | (lt) "time < findTime"
    by (metis less_linear)
  then show ?case
  proof cases
    case gt
    then show ?thesis
      using Cons.prems(3) Min_above_hd [OF s gt] by auto
  next
    case eq
    have all: "\<And>t. t \<in> set rest \<Longrightarrow> findTime < t" using s eq by simp
    show ?thesis
    proof (cases rest)
      case Nil
      then show ?thesis using Cons.prems(3) eq tn by (simp add: nearest_loop_step)
    next
      case (Cons n more)
      have "findTime < n" using all Cons by simp
      then have "Min {t \<in> set (n # more). findTime < t} = n"
        using s Cons Min_above_hd [of n more findTime] by simp
      moreover have "{t \<in> set (time # rest). findTime < t} = {t \<in> set (n # more). findTime < t}"
        using eq Cons by auto
      ultimately show ?thesis
        using Cons.prems(3) eq tn Cons \<open>findTime < n\<close>
        by (simp add: nearest_loop_step nearest_loop_next)
    qed
  next
    case lt
    then have le: "time \<le> findTime" and nlt: "\<not> findTime < time" and nle: "\<not> findTime \<le> time"
      by simp_all
    have lhs: "nearest_loop findTime mode False lastTime (time # rest) =
        nearest_loop findTime mode False time rest"
      using nle by simp
    have st: "{t \<in> set (time # rest). findTime < t} = {t \<in> set rest. findTime < t}"
      using nlt by auto
    have ex: "(\<exists>t\<in>set (time # rest). findTime < t) = (\<exists>t\<in>set rest. findTime < t)"
      using nlt by auto
    have la: "last (lastTime # time # rest) = last (time # rest)"
      by simp
    show ?thesis
      unfolding lhs st ex la by (rule Cons.IH [OF s le Cons.prems(3) rn])
  qed
qed

lemma Max_below_single: "x < findTime \<Longrightarrow> Max {t. t = x \<and> t < findTime} = (x::num)"
proof -
  assume "x < findTime"
  then have "{t. t = x \<and> t < findTime} = {x}" by auto
  then show ?thesis by simp
qed

lemma nearest_loop_backward:
  assumes "sorted_wrt (<) (lastTime # rest)" and "NaN \<notin> set rest"
  shows "nearest_loop findTime (- 1) False lastTime rest =
     (if \<exists>t\<in>set (lastTime # rest). t < findTime
      then Max {t \<in> set (lastTime # rest). t < findTime}
      else lastTime)"
  using assms
proof (induction rest arbitrary: lastTime)
  case Nil
  then show ?case by (simp add: Max_below_single)
next
  case (Cons time rest)
  have s: "sorted_wrt (<) (time # rest)" and lt0: "lastTime < time"
    and above: "\<And>t. t \<in> set rest \<Longrightarrow> time < t"
    using Cons.prems(1) by simp_all
  have tn: "time \<noteq> NaN" and rn: "NaN \<notin> set rest"
    using Cons.prems(2) by auto
  note nearest_loop.simps(2) [simp del]
  note step [simp] = nearest_loop_step [OF tn]
  show ?case
  proof (cases "findTime \<le> time")
    case True
    have high: "\<not> t < findTime" if "t \<in> set (time # rest)" for t
    proof -
      have "time \<le> t" using that above by (auto dest: less_imp_le)
      with True have "findTime \<le> t" by (rule order_trans)
      then show ?thesis by (simp add: not_less)
    qed
    show ?thesis
    proof (cases "lastTime < findTime")
      case lt: True
      have lhs: "nearest_loop findTime (- 1) False lastTime (time # rest) = lastTime"
        using True by simp
      have ex: "\<exists>t\<in>set (lastTime # time # rest). t < findTime"
        using lt by (intro bexI [of _ lastTime]) simp_all
      have "{t \<in> set (lastTime # time # rest). t < findTime} = {lastTime}"
        using lt high by auto
      then have mx: "Max {t \<in> set (lastTime # time # rest). t < findTime} = lastTime"
        by (simp only: Max_singleton)
      show ?thesis
        by (simp only: lhs ex mx if_True)
    next
      case ge: False
      have lhs: "nearest_loop findTime (- 1) False lastTime (time # rest) = lastTime"
        using True by simp
      have ex: "\<not> (\<exists>t\<in>set (lastTime # time # rest). t < findTime)"
        using ge high by auto
      show ?thesis
        by (simp only: lhs ex if_False)
    qed
  next
    case False
    then have lt: "time < findTime" by simp
    have fin: "finite {t \<in> set (time # rest). t < findTime}" by simp
    have ne: "time \<in> {t \<in> set (time # rest). t < findTime}" using lt by simp
    have "{t \<in> set (lastTime # time # rest). t < findTime} =
          insert lastTime {t \<in> set (time # rest). t < findTime}"
      using lt lt0 by auto
    moreover have "Max (insert lastTime {t \<in> set (time # rest). t < findTime}) =
          Max {t \<in> set (time # rest). t < findTime}"
    proof -
      have "time \<le> Max {t \<in> set (time # rest). t < findTime}"
        using fin ne by (rule Max_ge)
      then have "lastTime \<le> Max {t \<in> set (time # rest). t < findTime}"
        using lt0 by simp
      then show ?thesis
        using fin ne by (subst Max_insert) (auto simp: max_def)
    qed
    ultimately show ?thesis
      using Cons.IH [OF s rn] lt False by auto
  qed
qed

lemma example_times: "getTimes example_heap example_control = [Fin 0, Fin 5, Fin 10, Fin 15]"
  by (simp add: getTimes_def example_heap_def example_control_def example_index_eval
      control_setOptions_def no_control_options_def js_sort_def)

text \<open>
  C3, as the code has it. On a non-empty merged time list, \<^verbatim>\<open>_nearestEventTime\<close> with
  mode \<open>-1\<close> returns the greatest listed time strictly before \<open>findTime\<close>, and the first
  time of the list when no listed time is before \<open>findTime\<close>. With any other mode, and
  \<open>findTime\<close> not before the first listed time, it returns the least listed time
  strictly after \<open>findTime\<close>, and the last time of the list when no listed time is after
  \<open>findTime\<close>. The listed times are never \<open>NaN\<close>. For \<open>findTime = NaN\<close> every comparison of
  the loop fails and it returns the last time in either mode, which is what the statement
  says with \<open>NaN\<close> above every time.
\<close>

theorem nearest_event_time:
  assumes "getTimes h c \<noteq> []"
  shows "nearestEventTime h c findTime (Some (- 1)) =
           Some (if \<exists>t\<in>set (getTimes h c). t < findTime
                 then Max {t \<in> set (getTimes h c). t < findTime}
                 else hd (getTimes h c)) \<and>
         (mode \<noteq> Some (- 1) \<and> hd (getTimes h c) \<le> findTime \<longrightarrow>
          nearestEventTime h c findTime mode =
            Some (if \<exists>t\<in>set (getTimes h c). findTime < t
                  then Min {t \<in> set (getTimes h c). findTime < t}
                  else last (getTimes h c)))"
proof -
  obtain t0 rest where ts: "getTimes h c = t0 # rest"
    using assms by (cases "getTimes h c") auto
  have s: "sorted_wrt (<) (t0 # rest)"
    using getTimes_sorted [of h c] by (simp add: ts)
  have rn: "NaN \<notin> set rest"
    using getTimes_no_NaN [of h c] by (simp add: ts)
  have bwd: "nearestEventTime h c findTime (Some (- 1)) =
           Some (if \<exists>t\<in>set (getTimes h c). t < findTime
                 then Max {t \<in> set (getTimes h c). t < findTime}
                 else hd (getTimes h c))"
    using nearest_loop_backward [OF s rn, of findTime] by (simp add: nearestEventTime_def ts)
  have fwd: "nearestEventTime h c findTime mode =
            Some (if \<exists>t\<in>set (getTimes h c). findTime < t
                  then Min {t \<in> set (getTimes h c). findTime < t}
                  else last (getTimes h c))"
    if m: "mode \<noteq> Some (- 1)" and le: "hd (getTimes h c) \<le> findTime"
  proof -
    have le0: "t0 \<le> findTime" using le by (simp add: ts)
    then have n0: "\<not> findTime < t0" by simp
    have m': "(case mode of None \<Rightarrow> 1 | Some m \<Rightarrow> m) \<noteq> (- 1 :: int)"
      using m by (cases mode) auto
    have st: "{t \<in> set (t0 # rest). findTime < t} = {t \<in> set rest. findTime < t}"
      using n0 by auto
    have ex: "(\<exists>t\<in>set (t0 # rest). findTime < t) = (\<exists>t\<in>set rest. findTime < t)"
      using n0 by auto
    have "nearestEventTime h c findTime mode =
        Some (nearest_loop findTime (case mode of None \<Rightarrow> 1 | Some m \<Rightarrow> m) False t0 rest)"
      by (simp add: nearestEventTime_def ts)
    also have "\<dots> = Some (if \<exists>t\<in>set rest. findTime < t then Min {t \<in> set rest. findTime < t}
                          else last (t0 # rest))"
      using nearest_loop_forward [OF s le0 m' rn] by simp
    finally show ?thesis
      unfolding ts st ex .
  qed
  show ?thesis
    using bwd fwd by blast
qed


theorem nearest_event_time_witness:
  "getTimes example_heap example_control \<noteq> [] \<and>
   nearestEventTime example_heap example_control (Fin 7) (Some (- 1)) = Some (Fin 5) \<and>
   nearestEventTime example_heap example_control (Fin 5) (Some 1) = Some (Fin 10)"
proof -
  have ne: "getTimes example_heap example_control \<noteq> []"
    by (simp add: example_times)
  have mx: "Max {t. (t = Fin 0 \<or> t = Fin 5 \<or> t = Fin 10 \<or> t = Fin 15) \<and> t < Fin 7} = Fin 5"
    by (rule Max_eqI) auto
  have mn: "Min {t. (t = Fin 0 \<or> t = Fin 5 \<or> t = Fin 10 \<or> t = Fin 15) \<and> Fin 5 < t} = Fin 10"
    by (rule Min_eqI) auto
  show ?thesis
    using ne nearest_event_time [OF ne, of "Fin 7" "Some 1"]
      nearest_event_time [OF ne, of "Fin 5" "Some 1"]
    by (simp add: example_times mx mn)
qed

text \<open>
  On the list \<open>[0, 5, 10, 15]\<close> the backward query at the listed time \<open>5\<close> returns \<open>0\<close>, not
  \<open>5\<close>: an exact match is passed over in the backward direction too.
\<close>

theorem nearest_backward_counterexample:
  "Fin 5 \<in> set (getTimes example_heap example_control) \<and>
   nearestEventTime example_heap example_control (Fin 5) (Some (- 1)) = Some (Fin 0)"
  by (simp add: nearestEventTime_def example_times)

text \<open>
  The loop starts at index 1, so a forward query before the first listed time returns the
  second time of the list.
\<close>

lemma nearest_forward_before_first:
  "getTimes example_heap example_control = [Fin 0, Fin 5, Fin 10, Fin 15] \<and>
   nearestEventTime example_heap example_control (Fin (- 3)) (Some 1) = Some (Fin 5)"
  by (simp add: nearestEventTime_def example_times)

theorem nearest_on_empty_list_witness:
  "c_timelines (example_control\<lparr>c_start := Fin 20, c_end := Fin 30\<rparr>) = [1] \<and>
   t_times (example_heap 1) = [Fin 0, Fin 5, Fin 10, Fin 15] \<and>
   getTimes example_heap (example_control\<lparr>c_start := Fin 20, c_end := Fin 30\<rparr>) = [] \<and>
   nearestEventTime example_heap (example_control\<lparr>c_start := Fin 20, c_end := Fin 30\<rparr>)
     (Fin 25) (Some 1) = None"
proof -
  have h: "\<forall>timeline\<in>set (c_timelines (example_control\<lparr>c_start := Fin 20, c_end := Fin 30\<rparr>)).
      \<forall>time\<in>set (t_times (example_heap timeline)).
        \<not> (js_le (c_start (example_control\<lparr>c_start := Fin 20, c_end := Fin 30\<rparr>)) time \<and>
           js_le time (c_end (example_control\<lparr>c_start := Fin 20, c_end := Fin 30\<rparr>)))"
    by (simp add: example_control_def example_heap_def example_index_eval)
  have e: "c_timelines (example_control\<lparr>c_start := Fin 20, c_end := Fin 30\<rparr>) = [1]"
    "t_times (example_heap 1) = [Fin 0, Fin 5, Fin 10, Fin 15]"
    by (simp_all add: example_control_def example_heap_def example_index_eval)
  show ?thesis
    using e nearest_on_empty_list [OF h, of "Fin 25" "Some 1"] by blast
qed

section \<open>The bounds of the control\<close>

lemma Min_insert_min:
  "finite S \<Longrightarrow> Min (insert (min m a) S) = Min (insert m (insert a S))" for m :: num
  by (cases "S = {}") (simp_all add: min.assoc)

lemma Max_insert_max:
  "finite S \<Longrightarrow> Max (insert (max m a) S) = Max (insert m (insert a S))" for m :: num
  by (cases "S = {}") (simp_all add: max.assoc)

text \<open>
  The loop of \<^verbatim>\<open>_recalculate\<close> passes over a start or an end that is \<open>NaN\<close>, since no
  comparison with it holds: the bounds are the minimum and the maximum of the others.
\<close>

lemma fold_minmax:
  assumes "mn \<noteq> NaN" and "mx \<noteq> NaN"
  shows "fold (minmax_step h) ts (mn, mx) =
     (Min (insert mn ((\<lambda>t. t_start (h t)) ` set ts - {NaN})),
      Max (insert mx ((\<lambda>t. t_end (h t)) ` set ts - {NaN})))"
  using assms
proof (induction ts arbitrary: mn mx)
  case Nil
  then show ?case by simp
next
  case (Cons t ts)
  define a where "a = t_start (h t)"
  define b where "b = t_end (h t)"
  define mn' where "mn' = (if a = NaN then mn else min mn a)"
  define mx' where "mx' = (if b = NaN then mx else max mx b)"
  have lo: "(if js_lt (t_start (h t)) mn then t_start (h t) else mn) = mn'"
    using Cons.prems(1) by (auto simp: mn'_def a_def js_lt_iff min_def)
  have hi: "(if js_lt mx (t_end (h t)) then t_end (h t) else mx) = mx'"
    using Cons.prems(2) by (auto simp: mx'_def b_def js_lt_iff max_def)
  have n: "mn' \<noteq> NaN" "mx' \<noteq> NaN"
    using Cons.prems by (auto simp: mn'_def mx'_def min_def max_def)
  have step: "fold (minmax_step h) (t # ts) (mn, mx) = fold (minmax_step h) ts (mn', mx')"
    by (simp add: minmax_step_def lo hi)
  have sa: "insert mn' ((\<lambda>t. t_start (h t)) ` set ts - {NaN}) =
      (if a = NaN then insert mn ((\<lambda>t. t_start (h t)) ` set ts - {NaN})
       else insert (min mn a) ((\<lambda>t. t_start (h t)) ` set ts - {NaN}))"
    by (simp add: mn'_def)
  have sb: "insert mx' ((\<lambda>t. t_end (h t)) ` set ts - {NaN}) =
      (if b = NaN then insert mx ((\<lambda>t. t_end (h t)) ` set ts - {NaN})
       else insert (max mx b) ((\<lambda>t. t_end (h t)) ` set ts - {NaN}))"
    by (simp add: mx'_def)
  have ta: "(\<lambda>t. t_start (h t)) ` set (t # ts) - {NaN} =
      (if a = NaN then (\<lambda>t. t_start (h t)) ` set ts - {NaN}
       else insert a ((\<lambda>t. t_start (h t)) ` set ts - {NaN}))"
    by (auto simp: a_def)
  have tb: "(\<lambda>t. t_end (h t)) ` set (t # ts) - {NaN} =
      (if b = NaN then (\<lambda>t. t_end (h t)) ` set ts - {NaN}
       else insert b ((\<lambda>t. t_end (h t)) ` set ts - {NaN}))"
    by (auto simp: b_def)
  have "Min (insert mn' ((\<lambda>t. t_start (h t)) ` set ts - {NaN})) =
        Min (insert mn ((\<lambda>t. t_start (h t)) ` set (t # ts) - {NaN}))"
    unfolding sa ta by (simp add: Min_insert_min)
  moreover have "Max (insert mx' ((\<lambda>t. t_end (h t)) ` set ts - {NaN})) =
        Max (insert mx ((\<lambda>t. t_end (h t)) ` set (t # ts) - {NaN}))"
    unfolding sb tb by (simp add: Max_insert_max)
  ultimately show ?case
    unfolding step Cons.IH [OF n] by simp
qed

lemma recalculate_ok:
  assumes "c_timeSlider c = Some s"
  shows "\<exists>c'. recalculate h c = Inr c' \<and>
     c_timelines c' = c_timelines c \<and> c_options c' = c_options c \<and>
     c_timeStart c' = c_timeStart c \<and> c_timeEnd c' = c_timeEnd c \<and>
     c_start c' =
       (if oc_start (c_options c) = None
        then Min (insert PosInf ((\<lambda>t. t_start (h t)) ` set (c_timelines c) - {NaN}))
        else c_start c) \<and>
     c_end c' =
       (if oc_end (c_options c) = None
        then Max (insert NegInf ((\<lambda>t. t_end (h t)) ` set (c_timelines c) - {NaN}))
        else c_end c) \<and>
     map_option range_min (c_timeSlider c') =
       Some (if oc_start (c_options c) = None
             then (if c_start c' = PosInf then Fin 0 else c_start c')
             else range_min s) \<and>
     map_option range_max (c_timeSlider c') =
       Some (if oc_end (c_options c) = None
             then (if c_end c' = NegInf then Fin 0 else c_end c')
             else range_max s)"
  using assms
  by (simp add: recalculate_def fold_minmax recalculate_start_def recalculate_end_def
      updateOptions_range_def slider_set_def)

lemma rebuildDataList_ok:
  assumes "c_timeSlider c = Some s"
  shows "rebuildDataList h c = Inr (c\<lparr>c_timeSlider := Some (updateOptions_pips (getTimes h c) s)\<rparr>)"
  using assms by (simp add: rebuildDataList_def)

lemma fold_update_other:
  "t \<notin> set ts \<Longrightarrow> fold (\<lambda>timeline h'. h'(timeline := f (h' timeline))) ts h t = h t"
  by (induction ts arbitrary: h) auto

lemma fold_update_established:
  assumes "\<And>x. g (f x) = v" and "t \<in> set ts"
  shows "g (fold (\<lambda>timeline h'. h'(timeline := f (h' timeline))) ts h t) = v"
  using assms(2)
proof (induction ts arbitrary: h)
  case Nil
  then show ?case by simp
next
  case (Cons x xs)
  have step: "fold (\<lambda>timeline h'. h'(timeline := f (h' timeline))) (x # xs) h =
      fold (\<lambda>timeline h'. h'(timeline := f (h' timeline))) xs (h(x := f (h x)))"
    by simp
  show ?case
  proof (cases "t \<in> set xs")
    case True
    then show ?thesis unfolding step by (rule Cons.IH)
  next
    case False
    then have tx: "t = x" using Cons.prems by simp
    have "fold (\<lambda>timeline h'. h'(timeline := f (h' timeline))) xs (h(x := f (h x))) t =
        (h(x := f (h x))) t"
      using False by (rule fold_update_other)
    then show ?thesis
      unfolding step using tx assms(1) by simp
  qed
qed

lemma fold_update_preserved:
  assumes "\<And>x. g (f x) = g x"
  shows "g (fold (\<lambda>timeline h'. h'(timeline := f (h' timeline))) ts h t) = g (h t)"
proof (induction ts arbitrary: h)
  case Nil
  then show ?case by simp
next
  case (Cons x xs)
  have step: "fold (\<lambda>timeline h'. h'(timeline := f (h' timeline))) (x # xs) h =
      fold (\<lambda>timeline h'. h'(timeline := f (h' timeline))) xs (h(x := f (h x)))"
    by simp
  have "g (fold (\<lambda>timeline h'. h'(timeline := f (h' timeline))) xs (h(x := f (h x))) t) =
      g ((h(x := f (h x))) t)"
    by (rule Cons.IH)
  then show ?case
    unfolding step using assms by simp
qed

section \<open>Pushing the selection to the timelines\<close>

lemma sliderChanged_change_eq:
  assumes "e_type e = ''change''"
  shows "sliderChanged D e (c, h) =
    (c\<lparr>c_timeStart := Some (valueMin e), c_timeEnd := Some (valueMax e)\<rparr>,
     fold (\<lambda>timeline h'. h'(timeline := setEndTime D (TNum (valueMax e)) (h' timeline)))
       (c_timelines c)
       (fold (\<lambda>timeline h'. h'(timeline := setStartTime D (TNum (valueMin e)) (h' timeline)))
          (c_timelines c) h))"
  using assms unfolding sliderChanged_def Let_def by simp

lemma sliderChanged_change:
  assumes "e_type e = ''change''"
  shows "fst (sliderChanged D e (c, h)) = c\<lparr>c_timeStart := Some (valueMin e), c_timeEnd := Some (valueMax e)\<rparr>"
    and "t \<in> set (c_timelines c) \<Longrightarrow> t_timeStart (snd (sliderChanged D e (c, h)) t) = valueMin e"
    and "t \<in> set (c_timelines c) \<Longrightarrow> t_timeEnd (snd (sliderChanged D e (c, h)) t) = valueMax e"
    and "t \<notin> set (c_timelines c) \<Longrightarrow> snd (sliderChanged D e (c, h)) t = h t"
proof -
  note eq = sliderChanged_change_eq [OF assms, where D = D and c = c and h = h]
  show "fst (sliderChanged D e (c, h)) = c\<lparr>c_timeStart := Some (valueMin e), c_timeEnd := Some (valueMax e)\<rparr>"
    unfolding eq by (rule fst_conv)
  show "t_timeStart (snd (sliderChanged D e (c, h)) t) = valueMin e" if "t \<in> set (c_timelines c)"
  proof -
    have "t_timeStart (fold (\<lambda>timeline h'. h'(timeline := setEndTime D (TNum (valueMax e)) (h' timeline)))
            (c_timelines c)
            (fold (\<lambda>timeline h'. h'(timeline := setStartTime D (TNum (valueMin e)) (h' timeline)))
               (c_timelines c) h) t) =
          t_timeStart (fold (\<lambda>timeline h'. h'(timeline := setStartTime D (TNum (valueMin e)) (h' timeline)))
               (c_timelines c) h t)"
      by (rule fold_update_preserved) (rule setEndTime_fields)
    also have "\<dots> = valueMin e"
    proof (rule fold_update_established [OF _ that])
      fix x show "t_timeStart (setStartTime D (TNum (valueMin e)) x) = valueMin e"
        by (simp only: setStartTime_fields to_time_def timearg.case)
    qed
    finally show ?thesis
      unfolding eq snd_conv .
  qed
  show "t_timeEnd (snd (sliderChanged D e (c, h)) t) = valueMax e" if "t \<in> set (c_timelines c)"
  proof -
    have "t_timeEnd (fold (\<lambda>timeline h'. h'(timeline := setEndTime D (TNum (valueMax e)) (h' timeline)))
            (c_timelines c)
            (fold (\<lambda>timeline h'. h'(timeline := setStartTime D (TNum (valueMin e)) (h' timeline)))
               (c_timelines c) h) t) = valueMax e"
    proof (rule fold_update_established [OF _ that])
      fix x show "t_timeEnd (setEndTime D (TNum (valueMax e)) x) = valueMax e"
        by (simp only: setEndTime_fields to_time_def timearg.case)
    qed
    then show ?thesis
      unfolding eq snd_conv .
  qed
  show "snd (sliderChanged D e (c, h)) t = h t" if "t \<notin> set (c_timelines c)"
    unfolding eq snd_conv
    by (simp only: fold_update_other [OF that])
qed

lemma setTime_post:
  shows "c_timelines (fst (setTime D ts te (c, h))) = c_timelines c"
    and "c_options (fst (setTime D ts te (c, h))) = c_options c"
    and "c_start (fst (setTime D ts te (c, h))) = c_start c"
    and "c_end (fst (setTime D ts te (c, h))) = c_end c"
    and "c_timeStart (fst (setTime D ts te (c, h))) = Some ts"
    and "c_timeEnd (fst (setTime D ts te (c, h))) = Some te"
    and "t \<in> set (c_timelines c) \<Longrightarrow> t_timeStart (snd (setTime D ts te (c, h)) t) = ts"
    and "t \<in> set (c_timelines c) \<Longrightarrow> t_timeEnd (snd (setTime D ts te (c, h)) t) = te"
    and "t \<notin> set (c_timelines c) \<Longrightarrow> snd (setTime D ts te (c, h)) t = h t"
proof -
  define e where "e = \<lparr>e_type = ''change'', valueMin = ts, valueMax = te\<rparr>"
  define c1 where "c1 = (case c_timeSlider c of
                     None \<Rightarrow> c
                   | Some s \<Rightarrow> c\<lparr>c_timeSlider := Some (slider_set (Some ts) (Some te) s)\<rparr>)"
  have st: "setTime D ts te (c, h) = sliderChanged D e (c1, h)"
    by (simp add: setTime_def e_def c1_def)
  have e: "e_type e = ''change''" "valueMin e = ts" "valueMax e = te"
    by (simp_all add: e_def)
  have c1: "c_timelines c1 = c_timelines c" "c_options c1 = c_options c"
    "c_start c1 = c_start c" "c_end c1 = c_end c"
    by (simp_all add: c1_def split: option.splits)
  note sc = sliderChanged_change [OF e(1), where D = D and c = c1 and h = h]
  show "c_timelines (fst (setTime D ts te (c, h))) = c_timelines c"
    and "c_options (fst (setTime D ts te (c, h))) = c_options c"
    and "c_start (fst (setTime D ts te (c, h))) = c_start c"
    and "c_end (fst (setTime D ts te (c, h))) = c_end c"
    and "c_timeStart (fst (setTime D ts te (c, h))) = Some ts"
    and "c_timeEnd (fst (setTime D ts te (c, h))) = Some te"
    unfolding st sc(1) by (simp_all add: c1 e)
  show "t_timeStart (snd (setTime D ts te (c, h)) t) = ts" if "t \<in> set (c_timelines c)"
    unfolding st using sc(2) [where t = t] that by (simp add: c1 e)
  show "t_timeEnd (snd (setTime D ts te (c, h)) t) = te" if "t \<in> set (c_timelines c)"
    unfolding st using sc(3) [where t = t] that by (simp add: c1 e)
  show "snd (setTime D ts te (c, h)) t = h t" if "t \<notin> set (c_timelines c)"
    unfolding st using sc(4) [where t = t] that by (simp add: c1 e)
qed

lemma resetIfTimelinesChanged_post:
  assumes "c_timeSlider c = Some s" and "length (c_timelines c) \<noteq> oldTimelineCount"
  shows "\<exists>c' h'. resetIfTimelinesChanged D oldTimelineCount (c, h) = Inr (c', h') \<and>
     c_timelines c' = c_timelines c \<and>
     c_start c' =
       (if oc_start (c_options c) = None
        then Min (insert PosInf ((\<lambda>t. t_start (h t)) ` set (c_timelines c) - {NaN}))
        else c_start c) \<and>
     c_end c' =
       (if oc_end (c_options c) = None
        then Max (insert NegInf ((\<lambda>t. t_end (h t)) ` set (c_timelines c) - {NaN}))
        else c_end c) \<and>
     c_timeStart c' = Some (c_start c') \<and>
     c_timeEnd c' = Some (c_end c') \<and>
     (\<forall>t\<in>set (c_timelines c').
        t_timeStart (h' t) = c_start c' \<and> t_timeEnd (h' t) = c_end c')"
proof -
  obtain c1 where r: "recalculate h c = Inr c1"
    and c1: "c_timelines c1 = c_timelines c" "c_options c1 = c_options c"
      "c_start c1 =
       (if oc_start (c_options c) = None
        then Min (insert PosInf ((\<lambda>t. t_start (h t)) ` set (c_timelines c) - {NaN}))
        else c_start c)"
      "c_end c1 =
       (if oc_end (c_options c) = None
        then Max (insert NegInf ((\<lambda>t. t_end (h t)) ` set (c_timelines c) - {NaN}))
        else c_end c)"
    and sl: "map_option range_min (c_timeSlider c1) \<noteq> None"
    using recalculate_ok [OF assms(1), of h] by auto
  obtain s1 where s1: "c_timeSlider c1 = Some s1"
    using sl by (cases "c_timeSlider c1") auto
  define c2 where "c2 = (if showTicks (c_options c1) = Some True
      then c1\<lparr>c_timeSlider := Some (updateOptions_pips (getTimes h c1) s1)\<rparr> else c1)"
  have c2: "c_timelines c2 = c_timelines c" "c_start c2 = c_start c1" "c_end c2 = c_end c1"
    by (simp_all add: c2_def c1)
  have res: "resetIfTimelinesChanged D oldTimelineCount (c, h) =
      Inr (setTime D (c_start c2) (c_end c2) (c2, h))"
    using assms(2) by (simp add: resetIfTimelinesChanged_def r rebuildDataList_ok [OF s1] c2_def)
  obtain c' h' where w: "setTime D (c_start c2) (c_end c2) (c2, h) = (c', h')"
    by (cases "setTime D (c_start c2) (c_end c2) (c2, h)")
  note sp = setTime_post [where D = D and ts = "c_start c2" and te = "c_end c2" and c = c2 and h = h,
    unfolded w fst_conv snd_conv]
  have "c_timelines c' = c_timelines c" "c_start c' = c_start c1" "c_end c' = c_end c1"
    "c_timeStart c' = Some (c_start c')" "c_timeEnd c' = Some (c_end c')"
    using sp(1,3,4,5,6) by (simp_all add: c2)
  moreover have "\<forall>t\<in>set (c_timelines c').
        t_timeStart (h' t) = c_start c' \<and> t_timeEnd (h' t) = c_end c'"
    using sp(1,3,4) sp(7,8) by (simp add: c2)
  ultimately show ?thesis
    using res w c1(3,4) by simp
qed

section \<open>Registration\<close>

lemma push_new_frame:
  "c_timeSlider (push_new ts c) = c_timeSlider c"
  "c_options (push_new ts c) = c_options c"
  "c_start (push_new ts c) = c_start c"
  "c_end (push_new ts c) = c_end c"
  unfolding push_new_def by (induction ts arbitrary: c; simp)+

lemma splice_found_frame:
  "c_timeSlider (splice_found ts c) = c_timeSlider c"
  "c_options (splice_found ts c) = c_options c"
  "c_start (splice_found ts c) = c_start c"
  "c_end (splice_found ts c) = c_end c"
  unfolding splice_found_def by (induction ts arbitrary: c; simp)+

lemma addTimelines_pair:
  "addTimelines D timelines (c, h) =
     resetIfTimelinesChanged D (length (c_timelines c)) (push_new timelines c, h)"
  by (simp add: addTimelines_def)

lemma removeTimelines_pair:
  "removeTimelines D timelines (c, h) =
     resetIfTimelinesChanged D (length (c_timelines c)) (splice_found timelines c, h)"
  by (simp add: removeTimelines_def)

text \<open>
  C5, as the code has it. Let the widget of the control exist. After a call of
  \<^verbatim>\<open>addTimelines\<close> or \<^verbatim>\<open>removeTimelines\<close> that changes the number of registered timelines,
  the call returns, each bound of the control that is not pinned is the minimum of the
  starts (the maximum of the ends) of the registered timelines, a start or an end that is
  \<open>NaN\<close> being passed over, the selection of the control is reset to these bounds
  \<open>[start, end]\<close>, and every registered timeline has received this selection.
\<close>

theorem registration_resets_selection:
  assumes "c_timeSlider c \<noteq> None"
  shows "(length (c_timelines (push_new timelines c)) \<noteq> length (c_timelines c) \<longrightarrow>
      (\<exists>c' h'. addTimelines D timelines (c, h) = Inr (c', h') \<and>
         c_timelines c' = c_timelines (push_new timelines c) \<and>
         c_start c' =
           (if oc_start (c_options c) = None
            then Min (insert PosInf ((\<lambda>t. t_start (h t)) ` set (c_timelines c') - {NaN}))
            else c_start c) \<and>
         c_end c' =
           (if oc_end (c_options c) = None
            then Max (insert NegInf ((\<lambda>t. t_end (h t)) ` set (c_timelines c') - {NaN}))
            else c_end c) \<and>
         c_timeStart c' = Some (c_start c') \<and>
         c_timeEnd c' = Some (c_end c') \<and>
         (\<forall>t\<in>set (c_timelines c').
            t_timeStart (h' t) = c_start c' \<and> t_timeEnd (h' t) = c_end c'))) \<and>
     (length (c_timelines (splice_found timelines c)) \<noteq> length (c_timelines c) \<longrightarrow>
      (\<exists>c' h'. removeTimelines D timelines (c, h) = Inr (c', h') \<and>
         c_timelines c' = c_timelines (splice_found timelines c) \<and>
         c_start c' =
           (if oc_start (c_options c) = None
            then Min (insert PosInf ((\<lambda>t. t_start (h t)) ` set (c_timelines c') - {NaN}))
            else c_start c) \<and>
         c_end c' =
           (if oc_end (c_options c) = None
            then Max (insert NegInf ((\<lambda>t. t_end (h t)) ` set (c_timelines c') - {NaN}))
            else c_end c) \<and>
         c_timeStart c' = Some (c_start c') \<and>
         c_timeEnd c' = Some (c_end c') \<and>
         (\<forall>t\<in>set (c_timelines c').
            t_timeStart (h' t) = c_start c' \<and> t_timeEnd (h' t) = c_end c')))"
proof -
  obtain s where s: "c_timeSlider c = Some s"
    using assms by auto
  have a: "c_timeSlider (push_new timelines c) = Some s"
    and r: "c_timeSlider (splice_found timelines c) = Some s"
    by (simp_all add: push_new_frame splice_found_frame s)
  show ?thesis
  proof (intro conjI impI)
    assume n: "length (c_timelines (push_new timelines c)) \<noteq> length (c_timelines c)"
    show "\<exists>c' h'. addTimelines D timelines (c, h) = Inr (c', h') \<and>
         c_timelines c' = c_timelines (push_new timelines c) \<and>
         c_start c' =
           (if oc_start (c_options c) = None
            then Min (insert PosInf ((\<lambda>t. t_start (h t)) ` set (c_timelines c') - {NaN}))
            else c_start c) \<and>
         c_end c' =
           (if oc_end (c_options c) = None
            then Max (insert NegInf ((\<lambda>t. t_end (h t)) ` set (c_timelines c') - {NaN}))
            else c_end c) \<and>
         c_timeStart c' = Some (c_start c') \<and>
         c_timeEnd c' = Some (c_end c') \<and>
         (\<forall>t\<in>set (c_timelines c').
            t_timeStart (h' t) = c_start c' \<and> t_timeEnd (h' t) = c_end c')"
      using resetIfTimelinesChanged_post [OF a n, of D h]
      unfolding addTimelines_pair push_new_frame by metis
  next
    assume n: "length (c_timelines (splice_found timelines c)) \<noteq> length (c_timelines c)"
    show "\<exists>c' h'. removeTimelines D timelines (c, h) = Inr (c', h') \<and>
         c_timelines c' = c_timelines (splice_found timelines c) \<and>
         c_start c' =
           (if oc_start (c_options c) = None
            then Min (insert PosInf ((\<lambda>t. t_start (h t)) ` set (c_timelines c') - {NaN}))
            else c_start c) \<and>
         c_end c' =
           (if oc_end (c_options c) = None
            then Max (insert NegInf ((\<lambda>t. t_end (h t)) ` set (c_timelines c') - {NaN}))
            else c_end c) \<and>
         c_timeStart c' = Some (c_start c') \<and>
         c_timeEnd c' = Some (c_end c') \<and>
         (\<forall>t\<in>set (c_timelines c').
            t_timeStart (h' t) = c_start c' \<and> t_timeEnd (h' t) = c_end c')"
      using resetIfTimelinesChanged_post [OF r n, of D h]
      unfolding removeTimelines_pair splice_found_frame by metis
  qed
qed

lemma sliderChanged_bounds:
  assumes "e_type e = ''change''"
  shows "t_start (snd (sliderChanged D e (c, h)) t) = t_start (h t)"
    and "t_end (snd (sliderChanged D e (c, h)) t) = t_end (h t)"
proof -
  note eq = sliderChanged_change_eq [OF assms, where D = D and c = c and h = h]
  have "t_start (fold (\<lambda>timeline h'. h'(timeline := setEndTime D (TNum (valueMax e)) (h' timeline)))
            (c_timelines c)
            (fold (\<lambda>timeline h'. h'(timeline := setStartTime D (TNum (valueMin e)) (h' timeline)))
               (c_timelines c) h) t) =
        t_start (fold (\<lambda>timeline h'. h'(timeline := setStartTime D (TNum (valueMin e)) (h' timeline)))
               (c_timelines c) h t)"
    by (rule fold_update_preserved) (rule setEndTime_fields)
  also have "\<dots> = t_start (h t)"
    by (rule fold_update_preserved) (rule setStartTime_fields)
  finally show "t_start (snd (sliderChanged D e (c, h)) t) = t_start (h t)"
    unfolding eq snd_conv .
  have "t_end (fold (\<lambda>timeline h'. h'(timeline := setEndTime D (TNum (valueMax e)) (h' timeline)))
            (c_timelines c)
            (fold (\<lambda>timeline h'. h'(timeline := setStartTime D (TNum (valueMin e)) (h' timeline)))
               (c_timelines c) h) t) =
        t_end (fold (\<lambda>timeline h'. h'(timeline := setStartTime D (TNum (valueMin e)) (h' timeline)))
               (c_timelines c) h t)"
    by (rule fold_update_preserved) (rule setEndTime_fields)
  also have "\<dots> = t_end (h t)"
    by (rule fold_update_preserved) (rule setStartTime_fields)
  finally show "t_end (snd (sliderChanged D e (c, h)) t) = t_end (h t)"
    unfolding eq snd_conv .
qed

lemma example_dragged_fst:
  "fst example_dragged = example_control\<lparr>c_timeStart := Some (Fin 5), c_timeEnd := Some (Fin 6)\<rparr>"
  unfolding example_dragged_def by (subst sliderChanged_change(1)) simp_all

lemma example_dragged_bounds:
  "t_start (snd example_dragged t) = Fin 0" "t_end (snd example_dragged t) = Fin 15"
  unfolding example_dragged_def
  by (simp_all add: sliderChanged_bounds example_heap_def example_index_eval)

lemma example_dragged_add:
  "\<exists>c' h'. addTimelines example_Date [2] example_dragged = Inr (c', h') \<and>
     c_timelines c' = [1, 2] \<and> c_start c' = Fin 0 \<and> c_end c' = Fin 15 \<and>
     c_timeStart c' = Some (Fin 0) \<and> c_timeEnd c' = Some (Fin 15) \<and>
     t_timeStart (h' 2) = Fin 0 \<and> t_timeEnd (h' 2) = Fin 15"
proof -
  define c0 where "c0 = fst example_dragged"
  define h0 where "h0 = snd example_dragged"
  have w: "example_dragged = (c0, h0)" by (simp add: c0_def h0_def)
  have c0: "c0 = example_control\<lparr>c_timeStart := Some (Fin 5), c_timeEnd := Some (Fin 6)\<rparr>"
    by (simp add: c0_def example_dragged_fst)
  have pn: "c_timelines (push_new [2] c0) = [1, 2]"
    by (simp add: push_new_def c0 example_control_def)
  have sl: "c_timeSlider (push_new [2] c0) = Some \<lparr>range_min = Fin 0, range_max = Fin 15,
                            handle_lo = Fin 0, handle_hi = Fin 15,
                            pips = Some [Fin 0, Fin 5, Fin 10, Fin 15]\<rparr>"
    by (simp add: push_new_frame c0 example_control_def)
  have n: "length (c_timelines (push_new [2] c0)) \<noteq> length (c_timelines c0)"
    by (simp add: pn) (simp add: c0 example_control_def)
  have o: "oc_start (c_options (push_new [2] c0)) = None" "oc_end (c_options (push_new [2] c0)) = None"
    by (simp_all add: push_new_frame c0 example_control_def control_setOptions_def no_control_options_def)
  let ?c1 = "push_new [2] c0"
  obtain c' h' where r: "resetIfTimelinesChanged example_Date (length (c_timelines c0)) (?c1, h0) = Inr (c', h')"
    and t: "c_timelines c' = c_timelines ?c1"
    and b: "c_start c' = (if oc_start (c_options ?c1) = None
        then Min (insert PosInf ((\<lambda>t. t_start (h0 t)) ` set (c_timelines ?c1) - {NaN}))
        else c_start ?c1)"
      "c_end c' = (if oc_end (c_options ?c1) = None
        then Max (insert NegInf ((\<lambda>t. t_end (h0 t)) ` set (c_timelines ?c1) - {NaN}))
        else c_end ?c1)"
    and sel: "c_timeStart c' = Some (c_start c')" "c_timeEnd c' = Some (c_end c')"
    and push: "\<forall>t\<in>set (c_timelines c'). t_timeStart (h' t) = c_start c' \<and> t_timeEnd (h' t) = c_end c'"
    using resetIfTimelinesChanged_post [OF sl n, of example_Date h0] by blast
  have b': "c_start c' = Fin 0" "c_end c' = Fin 15"
    using b by (simp_all add: o pn h0_def example_dragged_bounds)
  have t': "c_timelines c' = [1, 2]"
    using t pn by simp
  have "t_timeStart (h' 2) = c_start c' \<and> t_timeEnd (h' 2) = c_end c'"
    using push t' by simp
  moreover have "addTimelines example_Date [2] example_dragged = Inr (c', h')"
    by (simp add: w addTimelines_pair r)
  ultimately show ?thesis
    using t' b' sel by simp
qed

text \<open>
  The user has dragged the selection of the example control to \<open>[5, 6]\<close>. Registering a
  second timeline does not push \<open>[5, 6]\<close> to it: the new timeline receives the bounds
  \<open>[0, 15]\<close>, to which the selection is reset.
\<close>

theorem selection_not_repushed_counterexample:
  "c_timeStart (fst example_dragged) = Some (Fin 5) \<and>
   c_timeEnd (fst example_dragged) = Some (Fin 6) \<and>
   \<not> isl (addTimelines example_Date [2] example_dragged) \<and>
   c_timelines (fst (projr (addTimelines example_Date [2] example_dragged))) = [1, 2] \<and>
   t_timeStart (snd (projr (addTimelines example_Date [2] example_dragged)) 2) = Fin 0 \<and>
   t_timeEnd (snd (projr (addTimelines example_Date [2] example_dragged)) 2) = Fin 15"
  using example_dragged_add by (auto simp: example_dragged_fst)

theorem registration_resets_selection_witness:
  "c_timeSlider example_control \<noteq> None \<and>
   length (c_timelines (push_new [2] example_control)) \<noteq> length (c_timelines example_control) \<and>
   length (c_timelines (splice_found [1] example_control)) \<noteq> length (c_timelines example_control) \<and>
   \<not> isl (addTimelines example_Date [2] (example_control, example_heap)) \<and>
   c_timeStart (fst (projr (addTimelines example_Date [2] (example_control, example_heap)))) = Some (Fin 0) \<and>
   t_timeEnd (snd (projr (addTimelines example_Date [2] (example_control, example_heap))) 2) = Fin 15 \<and>
   \<not> isl (removeTimelines example_Date [1] (example_control, example_heap)) \<and>
   c_start (fst (projr (removeTimelines example_Date [1] (example_control, example_heap)))) = PosInf \<and>
   c_timeEnd (fst (projr (removeTimelines example_Date [1] (example_control, example_heap)))) = Some NegInf"
proof -
  have s: "c_timeSlider example_control \<noteq> None"
    by (simp add: example_control_def)
  have o: "oc_start (c_options example_control) = None" "oc_end (c_options example_control) = None"
    by (simp_all add: example_control_def control_setOptions_def no_control_options_def)
  have pn: "c_timelines (push_new [2] example_control) = [1, 2]"
    by (simp add: push_new_def example_control_def)
  have sf: "c_timelines (splice_found [1] example_control) = []"
    by (simp add: splice_found_def example_control_def)
  have l: "length (c_timelines example_control) = 1"
    by (simp add: example_control_def)
  have hb: "\<And>t. t_start (example_heap t) = Fin 0" "\<And>t. t_end (example_heap t) = Fin 15"
    by (simp_all add: example_heap_def example_index_eval)
  have na: "length (c_timelines (push_new [2] example_control)) \<noteq> length (c_timelines example_control)"
    and nr: "length (c_timelines (splice_found [1] example_control)) \<noteq> length (c_timelines example_control)"
    by (simp_all add: push_new_def splice_found_def example_control_def)
  obtain ca ha where a: "addTimelines example_Date [2] (example_control, example_heap) = Inr (ca, ha)"
    and ta: "c_timelines ca = c_timelines (push_new [2] example_control)"
    and ba: "c_start ca =
           (if oc_start (c_options example_control) = None
            then Min (insert PosInf ((\<lambda>t. t_start (example_heap t)) ` set (c_timelines ca) - {NaN}))
            else c_start example_control)"
      "c_end ca =
           (if oc_end (c_options example_control) = None
            then Max (insert NegInf ((\<lambda>t. t_end (example_heap t)) ` set (c_timelines ca) - {NaN}))
            else c_end example_control)"
    and sa: "c_timeStart ca = Some (c_start ca)"
    and pa: "\<forall>t\<in>set (c_timelines ca). t_timeStart (ha t) = c_start ca \<and> t_timeEnd (ha t) = c_end ca"
    using registration_resets_selection [OF s, of "[2]" example_Date example_heap] na by blast
  obtain cr hr where r: "removeTimelines example_Date [1] (example_control, example_heap) = Inr (cr, hr)"
    and tr: "c_timelines cr = c_timelines (splice_found [1] example_control)"
    and br: "c_start cr =
           (if oc_start (c_options example_control) = None
            then Min (insert PosInf ((\<lambda>t. t_start (example_heap t)) ` set (c_timelines cr) - {NaN}))
            else c_start example_control)"
      "c_end cr =
           (if oc_end (c_options example_control) = None
            then Max (insert NegInf ((\<lambda>t. t_end (example_heap t)) ` set (c_timelines cr) - {NaN}))
            else c_end example_control)"
    and sr: "c_timeEnd cr = Some (c_end cr)"
    using registration_resets_selection [OF s, of "[1]" example_Date example_heap] nr by blast
  have ta': "c_timelines ca = [1, 2]" and tr': "c_timelines cr = []"
    using ta pn tr sf by simp_all
  have ba': "c_start ca = Fin 0" "c_end ca = Fin 15"
    using ba by (simp_all add: o ta' hb)
  have br': "c_start cr = PosInf" "c_end cr = NegInf"
    using br by (simp_all add: o tr')
  have "t_timeEnd (ha 2) = Fin 15"
    using pa ba' by (simp add: ta')
  then show ?thesis
    using s na nr a r sa sr ba' br' by simp
qed

section \<open>The empty index\<close>

lemma map_filter_Nil: "List.map_filter g xs = [] \<longleftrightarrow> (\<forall>x\<in>set xs. g x = None)"
  by (induction xs) (auto split: option.splits)

lemma Min_all_PosInf:
  assumes "\<forall>t\<in>set ts. f t = PosInf"
  shows "Min (insert PosInf (f ` set ts - {NaN})) = PosInf"
proof -
  have "insert PosInf (f ` set ts - {NaN}) = {PosInf}" using assms by auto
  then show ?thesis by (simp only: Min_singleton)
qed

lemma Max_all_NegInf:
  assumes "\<forall>t\<in>set ts. f t = NegInf"
  shows "Max (insert NegInf (f ` set ts - {NaN})) = NegInf"
proof -
  have "insert NegInf (f ` set ts - {NaN}) = {NegInf}" using assms by auto
  then show ?thesis by (simp only: Max_singleton)
qed

lemma nothing_indexed:
  assumes "List.map_filter (resolve_getInterval D options) geojson = []"
    and "o_start options = None" and "o_end options = None"
  shows "t_start (initialize D geojson options) = PosInf"
    and "t_end (initialize D geojson options) = NegInf"
    and "t_times (initialize D geojson options) = []"
    and "t_ranges (initialize D geojson options) = []"
    and "t_layers (initialize D geojson options) = []"
proof -
  have none: "\<forall>f\<in>set geojson. resolve_getInterval D options f = None"
    using assms(1) by (simp add: map_filter_Nil)
  show "t_start (initialize D geojson options) = PosInf"
    and "t_end (initialize D geojson options) = NegInf"
    using assms by (simp_all add: initialize_def process_bounds setOptions_def or_else_def)
  show "t_times (initialize D geojson options) = []"
    using assms(1) by (simp add: initialize_times js_sort_def dedupe_times_def)
  show "t_ranges (initialize D geojson options) = []"
    using none by (simp add: initialize_def process_ranges map_filter_Nil)
  show "t_layers (initialize D geojson options) = []"
    by (simp add: initialize_def process_frame)
qed

lemma nothing_to_display:
  assumes "t_ranges tm = []" and "t_layers tm = []"
  shows "t_layers (updateDisplayedLayers (tm\<lparr>t_timeStart := qs, t_timeEnd := qe\<rparr>)) = []"
  using assms by (simp add: updateDisplayedLayers_def overlap_def getLayers_def)

text \<open>
  C7, as the code has it. An index built, without pinned bounds, from a collection of
  which no feature is indexed (the empty collection in particular) has the bounds
  \<open>+\<infinity>\<close> and \<open>-\<infinity>\<close>, not \<open>0\<close>; its time list is empty and no layer is displayed after a
  redisplay under any selection. When a control with a widget and without pinned bounds
  recalculates over such indexes, its own bounds become \<open>+\<infinity>\<close> and \<open>-\<infinity>\<close> as well, and
  only the range it passes to the slider is corrected to \<open>min = 0\<close>, \<open>max = 0\<close>.
\<close>

theorem empty_index_bounds:
  assumes "List.map_filter (resolve_getInterval D options) geojson = []"
    and "o_start options = None" and "o_end options = None"
    and "c_timeSlider c \<noteq> None"
    and "oc_start (c_options c) = None" and "oc_end (c_options c) = None"
    and "\<forall>t\<in>set (c_timelines c). h t = initialize D geojson options"
  shows "t_start (initialize D geojson options) = PosInf \<and>
     t_end (initialize D geojson options) = NegInf \<and>
     t_times (initialize D geojson options) = [] \<and>
     t_layers (updateDisplayedLayers
       ((initialize D geojson options)\<lparr>t_timeStart := qs, t_timeEnd := qe\<rparr>)) = [] \<and>
     (\<exists>c'. recalculate h c = Inr c' \<and>
        c_start c' = PosInf \<and> c_end c' = NegInf \<and>
        map_option range_min (c_timeSlider c') = Some (Fin 0) \<and>
        map_option range_max (c_timeSlider c') = Some (Fin 0))"
proof -
  note ni = nothing_indexed [OF assms(1,2,3)]
  obtain s where s: "c_timeSlider c = Some s"
    using assms(4) by auto
  have lo: "Min (insert PosInf ((\<lambda>t. t_start (h t)) ` set (c_timelines c) - {NaN})) = PosInf"
    using assms(7) by (intro Min_all_PosInf) (simp add: ni)
  have hi: "Max (insert NegInf ((\<lambda>t. t_end (h t)) ` set (c_timelines c) - {NaN})) = NegInf"
    using assms(7) by (intro Max_all_NegInf) (simp add: ni)
  have "\<exists>c'. recalculate h c = Inr c' \<and>
        c_start c' = PosInf \<and> c_end c' = NegInf \<and>
        map_option range_min (c_timeSlider c') = Some (Fin 0) \<and>
        map_option range_max (c_timeSlider c') = Some (Fin 0)"
    using recalculate_ok [OF s, of h] by (auto simp: assms(5,6) lo hi)
  then show ?thesis
    using ni(1,2,3) nothing_to_display [OF ni(4,5)] by simp
qed

text \<open>The index built from the empty collection has the bounds \<open>+\<infinity>\<close> and \<open>-\<infinity>\<close>.\<close>

theorem empty_index_bounds_counterexample:
  "t_start empty_index = PosInf \<and> t_end empty_index = NegInf \<and>
   t_start empty_index \<noteq> Fin 0 \<and> t_end empty_index \<noteq> Fin 0"
  by (simp add: empty_index_def nothing_indexed no_options_def)

theorem empty_index_bounds_witness:
  "t_start empty_index = PosInf \<and> t_end empty_index = NegInf \<and> t_times empty_index = [] \<and>
   t_layers (updateDisplayedLayers (empty_index\<lparr>t_timeStart := Fin 3, t_timeEnd := Fin 4\<rparr>)) = [] \<and>
   \<not> isl (recalculate empty_heap example_control) \<and>
   c_start (projr (recalculate empty_heap example_control)) = PosInf \<and>
   c_end (projr (recalculate empty_heap example_control)) = NegInf \<and>
   map_option range_min (c_timeSlider (projr (recalculate empty_heap example_control))) = Some (Fin 0) \<and>
   map_option range_max (c_timeSlider (projr (recalculate empty_heap example_control))) = Some (Fin 0)"
proof -
  have a: "List.map_filter (resolve_getInterval example_Date no_options) [] = []"
    "o_start no_options = None" "o_end no_options = None"
    by (simp_all add: no_options_def)
  have b: "c_timeSlider example_control \<noteq> None"
    "oc_start (c_options example_control) = None" "oc_end (c_options example_control) = None"
    by (simp_all add: example_control_def control_setOptions_def no_control_options_def)
  have c: "\<forall>t\<in>set (c_timelines example_control). empty_heap t = initialize example_Date [] no_options"
    by (simp add: empty_heap_def empty_index_def)
  show ?thesis
    using empty_index_bounds [OF a b c, where qs = "Fin 3" and qe = "Fin 4"]
    unfolding empty_index_def [symmetric] by auto
qed

section \<open>The example control is reachable\<close>

text \<open>
  Mounting a fresh control builds its widget over the bounds \<open>[0, 0]\<close>; registering the
  example index then yields the example control. Registering before the control is
  mounted raises the \<^verbatim>\<open>TypeError\<close> of \<^verbatim>\<open>_recalculate\<close>.
\<close>

lemma example_mounted:
  "onAdd example_Date (control_initialize no_control_options, example_heap) =
     Inr (\<lparr>c_options = control_setOptions no_control_options,
           c_timelines = [],
           c_start = Fin 0, c_end = Fin 0,
           c_timeStart = Some (Fin 0), c_timeEnd = Some (Fin 0),
           c_timeSlider = Some \<lparr>range_min = Fin 0, range_max = Fin 0,
                                 handle_lo = Fin 0, handle_hi = Fin 0,
                                 pips = Some []\<rparr>\<rparr>, example_heap)"
  by (simp add: onAdd_def createDOM_def makeSlider_def buildDataList_def rebuildDataList_def
      control_initialize_def control_setOptions_def no_control_options_def or_else_def truthy_def
      create_def updateOptions_pips_def getTimes_def setTime_def slider_set_def sliderChanged_def)

lemma example_control_reached:
  "map_sum id fst (addTimelines example_Date [1]
     (\<lparr>c_options = control_setOptions no_control_options,
           c_timelines = [],
           c_start = Fin 0, c_end = Fin 0,
           c_timeStart = Some (Fin 0), c_timeEnd = Some (Fin 0),
           c_timeSlider = Some \<lparr>range_min = Fin 0, range_max = Fin 0,
                                 handle_lo = Fin 0, handle_hi = Fin 0,
                                 pips = Some []\<rparr>\<rparr>, example_heap)) = Inr example_control"
proof -
  let ?c = "\<lparr>c_options = control_setOptions no_control_options,
           c_timelines = [1],
           c_start = Fin 0, c_end = Fin 0,
           c_timeStart = Some (Fin 0), c_timeEnd = Some (Fin 0),
           c_timeSlider = Some \<lparr>range_min = Fin 0, range_max = Fin 0,
                                 handle_lo = Fin 0, handle_hi = Fin 0,
                                 pips = Some []\<rparr>\<rparr>"
  have r: "recalculate example_heap ?c = Inr (?c\<lparr>c_start := Fin 0, c_end := Fin 15,
      c_timeSlider := Some \<lparr>range_min = Fin 0, range_max = Fin 15,
                                 handle_lo = Fin 0, handle_hi = Fin 0,
                                 pips = Some []\<rparr>\<rparr>)"
    by (simp add: recalculate_def minmax_step_def recalculate_start_def recalculate_end_def
        control_setOptions_def no_control_options_def updateOptions_range_def slider_set_def
        example_heap_def example_index_eval)
  have g: "getTimes example_heap (?c\<lparr>c_start := Fin 0, c_end := Fin 15,
      c_timeSlider := Some \<lparr>range_min = Fin 0, range_max = Fin 15,
                                 handle_lo = Fin 0, handle_hi = Fin 0,
                                 pips = Some []\<rparr>\<rparr>) = [Fin 0, Fin 5, Fin 10, Fin 15]"
    by (simp add: getTimes_def example_heap_def example_index_eval js_sort_def)
  show ?thesis
    using r g unfolding addTimelines_pair
    by (simp add: push_new_def resetIfTimelinesChanged_def rebuildDataList_def
        updateOptions_pips_def control_setOptions_def no_control_options_def
        setTime_def slider_set_def sliderChanged_change(1) example_control_def)
qed

lemma register_before_mount:
  "addTimelines example_Date [1] (control_initialize no_control_options, example_heap) =
     Inl TypeError"
  unfolding addTimelines_pair
  by (simp add: push_new_def resetIfTimelinesChanged_def recalculate_def minmax_step_def
      recalculate_start_def control_initialize_def control_setOptions_def no_control_options_def)

section \<open>The layers of a group stay distinct objects\<close>

text \<open>
  A new layer gets a stamp that no layer of the group has, so the hypothesis of the
  redisplay theorems holds after construction and is kept by every operation of the
  index.
\<close>

lemma fold_max_ge: "a \<le> fold max xs (a::nat)"
proof (induction xs arbitrary: a)
  case Nil
  then show ?case by simp
next
  case (Cons x xs)
  have "a \<le> max x a" by simp
  also have "\<dots> \<le> fold max xs (max x a)" by (rule Cons.IH)
  finally show ?case by simp
qed

lemma fold_max_upper: "x \<in> set xs \<Longrightarrow> x \<le> fold max xs (a::nat)"
proof (induction xs arbitrary: a)
  case Nil
  then show ?case by simp
next
  case (Cons y ys)
  show ?case
  proof (cases "x = y")
    case True
    have "x \<le> max y a" using True by simp
    also have "\<dots> \<le> fold max ys (max y a)" by (rule fold_max_ge)
    finally show ?thesis by simp
  next
    case False
    then have "x \<in> set ys" using Cons.prems by simp
    then show ?thesis using Cons.IH by simp
  qed
qed

lemma stamp_fresh: "stamp ls \<notin> lid ` set ls"
proof
  assume "stamp ls \<in> lid ` set ls"
  then have "stamp ls \<in> set (map lid ls)" by simp
  then have "stamp ls \<le> fold max (map lid ls) 0" by (rule fold_max_upper)
  then show False by (simp add: stamp_def)
qed

lemma addData_distinct:
  "distinct (map lid (t_layers tm)) \<Longrightarrow> distinct (map lid (t_layers (addData f tm)))"
  using stamp_fresh [of "t_layers tm"] by (simp add: addData_def)

lemma fold_addData_distinct:
  "distinct (map lid (t_layers tm)) \<Longrightarrow> distinct (map lid (t_layers (fold addData fs tm)))"
  by (induction fs arbitrary: tm) (simp_all add: addData_distinct)

lemma updateDisplayedLayers_distinct:
  assumes "distinct (map lid (t_layers tm))"
  shows "distinct (map lid (t_layers (updateDisplayedLayers tm)))"
proof -
  obtain fs' rs where m: "match_layers (t_layers tm)
      (overlap (t_ranges tm) (t_timeStart tm) (t_timeEnd tm)) [] = (fs', rs)"
    by (cases "match_layers (t_layers tm) (overlap (t_ranges tm) (t_timeStart tm) (t_timeEnd tm)) []")
  have "distinct (map lid (t_layers (fold removeLayer rs tm)))"
    using assms by (simp add: fold_removeLayer distinct_map_filter)
  then have "distinct (map lid (t_layers (fold addData fs' (fold removeLayer rs tm))))"
    by (rule fold_addData_distinct)
  then show ?thesis
    by (simp add: updateDisplayedLayers_def getLayers_def m)
qed

lemma layers_stay_distinct:
  "distinct (map lid (t_layers (initialize D geojson options)))"
  "distinct (map lid (t_layers tm)) \<Longrightarrow> distinct (map lid (t_layers (setStartTime D time tm)))"
  "distinct (map lid (t_layers tm)) \<Longrightarrow> distinct (map lid (t_layers (setEndTime D time tm)))"
proof -
  show "distinct (map lid (t_layers (initialize D geojson options)))"
    by (simp add: initialize_def process_frame)
  show "distinct (map lid (t_layers (setStartTime D time tm)))" if "distinct (map lid (t_layers tm))"
    using that updateDisplayedLayers_distinct [of "tm\<lparr>t_timeStart := to_time D time\<rparr>"]
    by (simp add: setStartTime_def Let_def fire_simps)
  show "distinct (map lid (t_layers (setEndTime D time tm)))" if "distinct (map lid (t_layers tm))"
    using that updateDisplayedLayers_distinct [of "tm\<lparr>t_timeEnd := to_time D time\<rparr>"]
    by (simp add: setEndTime_def Let_def fire_simps)
qed

section \<open>The bounds of an index\<close>

text \<open>
  A pinned bound other than \<open>0\<close> and \<open>NaN\<close> is taken as it is; for an absent bound, and
  for the pinned bounds \<open>0\<close> and \<open>NaN\<close>, the index takes the \<^verbatim>\<open>Math.min\<close> of the extracted
  starts (the \<^verbatim>\<open>Math.max\<close> of the extracted ends), which is the sentinel when nothing
  was extracted.
\<close>

lemma or_else_cases:
  "or_else None y = y"
  "or_else (Some (Fin 0)) y = y"
  "or_else (Some NaN) y = y"
  "x \<noteq> Fin 0 \<Longrightarrow> x \<noteq> NaN \<Longrightarrow> or_else (Some x) y = x"
  by (simp_all add: or_else_def truthy_def)

lemma initialize_bounds:
  "t_start (initialize D geojson options) =
     or_else (o_start options)
       (fold (\<lambda>v m. js_min m v)
          (map b_start (List.map_filter (resolve_getInterval D options) geojson)) PosInf)"
  "t_end (initialize D geojson options) =
     or_else (o_end options)
       (fold (\<lambda>v m. js_max m v)
          (map b_end (List.map_filter (resolve_getInterval D options) geojson)) NegInf)"
  by (simp_all add: initialize_def process_bounds setOptions_def)


end
